theory Spec2Isabelle
  imports Main "HOL-Library.Word"
begin

unbundle bit_operations_syntax

section \<open>Data model\<close>

type_synonym byte = "8 word"

text \<open>The package's error values (\<^verbatim>\<open>schema.go\<close>, lines 7-11), and the faults declared
  outside the sources. Modelled from the spec: \<^verbatim>\<open>ErrBadTag\<close> is the wrong-tag fault that
  \<^verbatim>\<open>public.go\<close> tests for; \<^verbatim>\<open>EOF\<close>, \<^verbatim>\<open>ErrUnexpectedEOF\<close> and \<^verbatim>\<open>ErrInvalidUnreadByte\<close> are the
  faults of the byte source (truncation, and an unread with no byte to push back).\<close>

datatype error =
    ErrTypeNotSupported
  | ErrIncorrectType
  | ErrBadArgs
  | ErrBadTag
  | EOF
  | ErrUnexpectedEOF
  | ErrInvalidUnreadByte

text \<open>Modelled from the spec: the declaration of \<^verbatim>\<open>Type\<close> is not part of the sources; the
  spec gives it as the closed enumeration Int, Uint, Float, Bool, String, Bin, Ext, Invalid.
  (\<open>Int\<close> is Isabelle's ASCII notation for set intersection, so the kind is written \<open>Int'\<close>.)\<close>

datatype Type = Int' | Uint | Float | Bool | String | Bin | Ext | Invalid

record Object =
  T :: Type
  Name :: string

type_synonym Schema = "Object list"

record PackExt =
  EType :: byte
  Data :: "byte list"


text \<open>The dynamic values (\<^verbatim>\<open>interface{}\<close>) this package inspects: one constructor per
  dynamic type named in a type switch or type assertion of the sources. Fixed-width
  integers are words (\<^verbatim>\<open>int\<close> and \<^verbatim>\<open>uint\<close> are taken 64 bits wide); a \<^verbatim>\<open>float64\<close> is
  its IEEE-754 bit pattern (\<^verbatim>\<open>math.Float64bits\<close>), a \<^verbatim>\<open>float32\<close> likewise. \<^verbatim>\<open>VPackExtPtr\<close>
  is a \<^verbatim>\<open>*PackExt\<close> (\<open>None\<close> the nil pointer) and \<^verbatim>\<open>VPackExt\<close> a \<^verbatim>\<open>PackExt\<close> held by
  value, which the older \<^verbatim>\<open>Write\<close> asserts. \<^verbatim>\<open>VNil\<close> is the nil interface and
  \<^verbatim>\<open>VOther\<close> stands for a value of any other dynamic type, given by the type's name.\<close>

datatype val =
    VFloat32 "32 word"
  | VFloat64 "64 word"
  | VUint "64 word"
  | VUint8 "8 word"
  | VUint16 "16 word"
  | VUint32 "32 word"
  | VUint64 "64 word"
  | VInt "64 word"
  | VInt8 "8 word"
  | VInt16 "16 word"
  | VInt32 "32 word"
  | VInt64 "64 word"
  | VBool bool
  | VString string
  | VBytes "byte list"
  | VPackExtPtr "PackExt option"
  | VPackExt PackExt
  | VNil
  | VOther string

text \<open>A call either returns or panics.\<close>

datatype 'a outcome = Panic | Return 'a

section \<open>Schema construction (\<^verbatim>\<open>schema.go\<close>)\<close>

text \<open>The type switch of \<^verbatim>\<open>MakeSchema\<close>'s loop body (lines 45-60); \<open>None\<close> is its
  \<^verbatim>\<open>default\<close> branch.\<close>

definition switch_kind :: "val \<Rightarrow> Type option" where
  "switch_kind kind =
     (case kind of
        VFloat32 _ \<Rightarrow> Some Float | VFloat64 _ \<Rightarrow> Some Float
      | VUint _ \<Rightarrow> Some Uint | VUint8 _ \<Rightarrow> Some Uint | VUint16 _ \<Rightarrow> Some Uint
      | VUint32 _ \<Rightarrow> Some Uint | VUint64 _ \<Rightarrow> Some Uint
      | VInt _ \<Rightarrow> Some Int' | VInt8 _ \<Rightarrow> Some Int' | VInt16 _ \<Rightarrow> Some Int'
      | VInt32 _ \<Rightarrow> Some Int' | VInt64 _ \<Rightarrow> Some Int'
      | VBool _ \<Rightarrow> Some Bool
      | VString _ \<Rightarrow> Some String
      | VBytes _ \<Rightarrow> Some Bin
      | _ \<Rightarrow> None)"

text \<open>The loop of \<^verbatim>\<open>MakeSchema\<close> at index \<open>i\<close>, over the values still to visit. The slice
  \<^verbatim>\<open>o\<close> is held as its prefix \<^verbatim>\<open>o[:i]\<close>, the part the loop has filled in: each round
  assigns both fields of \<^verbatim>\<open>o[i]\<close> and nothing reads the zero Objects behind it. The
  index \<open>i\<close> stays below \<^verbatim>\<open>len(names)\<close> because of the length check in \<^verbatim>\<open>MakeSchema\<close>.\<close>

fun MakeSchema_loop :: "string list \<Rightarrow> nat \<Rightarrow> val list \<Rightarrow> Object list \<Rightarrow> error + Schema" where
  "MakeSchema_loop names i [] ob = Inr ob"
| "MakeSchema_loop names i (kind # rest) ob =
     (case switch_kind kind of
        None \<Rightarrow> Inl ErrTypeNotSupported
      | Some t \<Rightarrow> MakeSchema_loop names (i + 1) rest (ob @ [\<lparr>T = t, Name = names ! i\<rparr>]))"

text \<open>\<^verbatim>\<open>MakeSchema\<close> returns \<^verbatim>\<open>(s, err)\<close>: \<open>Inr s\<close> is a schema with a nil error, \<open>Inl err\<close> a nil
  schema with the error.\<close>

definition MakeSchema :: "string list \<Rightarrow> val list \<Rightarrow> error + Schema" where
  "MakeSchema names types =
     (if length names \<noteq> length types then Inl ErrBadArgs
      else MakeSchema_loop names 0 types [])"

section \<open>Byte source and byte sink\<close>

text \<open>Modelled from the spec: the \<^verbatim>\<open>Reader\<close> interface is declared outside the sources. The
  spec asks of a byte source a single-byte read, a multi-byte read and one level of "push
  back the last byte read". \<open>buf\<close> holds the bytes not yet read and \<open>lastbyte\<close> the byte
  that \<^verbatim>\<open>UnreadByte\<close> can push back (none before the first read and none right after an
  unread). A read past the end is the fault \<^verbatim>\<open>EOF\<close>, a multi-byte read that ends early
  \<^verbatim>\<open>ErrUnexpectedEOF\<close>.\<close>

record Reader =
  buf :: "byte list"
  lastbyte :: "byte option"

definition ReadByte :: "Reader \<Rightarrow> (error + byte) \<times> Reader" where
  "ReadByte r =
     (case buf r of
        [] \<Rightarrow> (Inl EOF, r)
      | c # cs \<Rightarrow> (Inr c, \<lparr>buf = cs, lastbyte = Some c\<rparr>))"

definition UnreadByte :: "Reader \<Rightarrow> error option \<times> Reader" where
  "UnreadByte r =
     (case lastbyte r of
        None \<Rightarrow> (Some ErrInvalidUnreadByte, r)
      | Some c \<Rightarrow> (None, \<lparr>buf = c # buf r, lastbyte = None\<rparr>))"

definition ReadFull :: "nat \<Rightarrow> Reader \<Rightarrow> (error + byte list) \<times> Reader" where
  "ReadFull n r =
     (if n = 0 then (Inr [], r)
      else if buf r = [] then (Inl EOF, r)
      else if length (buf r) < n
        then (Inl ErrUnexpectedEOF, \<lparr>buf = [], lastbyte = Some (last (buf r))\<rparr>)
      else (Inr (take n (buf r)),
            \<lparr>buf = drop n (buf r), lastbyte = Some (last (take n (buf r)))\<rparr>))"

text \<open>Modelled from the spec: the \<^verbatim>\<open>Writer\<close> interface is declared outside the sources. A
  byte sink accepts bytes; the writers of this package return nothing, so a sink is the
  sequence of bytes it has accepted so far.\<close>

type_synonym Writer = "byte list"

section \<open>Scalar codec\<close>

text \<open>Modelled from the spec: the tag constants are declared outside the sources. The spec
  fixes the wire format as the standard tag layout of the format this package restricts
  (MessagePack, as the package comment of \<^verbatim>\<open>public.go\<close> says); these are its prefixes.\<close>

definition mfalse :: byte where "mfalse = 0xc2"
definition mtrue :: byte where "mtrue = 0xc3"
definition mbin8 :: byte where "mbin8 = 0xc4"
definition mbin16 :: byte where "mbin16 = 0xc5"
definition mbin32 :: byte where "mbin32 = 0xc6"
definition mext8 :: byte where "mext8 = 0xc7"
definition mext16 :: byte where "mext16 = 0xc8"
definition mext32 :: byte where "mext32 = 0xc9"
definition mfloat32 :: byte where "mfloat32 = 0xca"
definition mfloat64 :: byte where "mfloat64 = 0xcb"
definition muint8 :: byte where "muint8 = 0xcc"
definition muint16 :: byte where "muint16 = 0xcd"
definition muint32 :: byte where "muint32 = 0xce"
definition muint64 :: byte where "muint64 = 0xcf"
definition mint8 :: byte where "mint8 = 0xd0"
definition mint16 :: byte where "mint16 = 0xd1"
definition mint32 :: byte where "mint32 = 0xd2"
definition mint64 :: byte where "mint64 = 0xd3"
definition mfixext1 :: byte where "mfixext1 = 0xd4"
definition mfixext2 :: byte where "mfixext2 = 0xd5"
definition mfixext4 :: byte where "mfixext4 = 0xd6"
definition mfixext8 :: byte where "mfixext8 = 0xd7"
definition mfixext16 :: byte where "mfixext16 = 0xd8"
definition mstr8 :: byte where "mstr8 = 0xd9"
definition mstr16 :: byte where "mstr16 = 0xda"
definition mstr32 :: byte where "mstr32 = 0xdb"

text \<open>A Go string is a sequence of bytes; on the wire it is those bytes.\<close>

definition byte_of_char :: "char \<Rightarrow> byte" where
  "byte_of_char c = of_nat (of_char c)"

definition char_of_byte :: "byte \<Rightarrow> char" where
  "char_of_byte b = char_of (unat b)"

text \<open>Modelled from the spec: multi-byte numeric fields are big-endian (section 6), the
  most significant byte first. \<open>be_uint\<close> reads such a field back.\<close>

definition be16 :: "16 word \<Rightarrow> byte list" where
  "be16 x = [ucast (drop_bit 8 x), ucast x]"

definition be32 :: "32 word \<Rightarrow> byte list" where
  "be32 x = [ucast (drop_bit 24 x), ucast (drop_bit 16 x), ucast (drop_bit 8 x), ucast x]"

definition be64 :: "64 word \<Rightarrow> byte list" where
  "be64 x = [ucast (drop_bit 56 x), ucast (drop_bit 48 x), ucast (drop_bit 40 x),
             ucast (drop_bit 32 x), ucast (drop_bit 24 x), ucast (drop_bit 16 x),
             ucast (drop_bit 8 x), ucast x]"

definition be_uint :: "byte list \<Rightarrow> 'a::len word" where
  "be_uint bs = foldl (\<lambda>a b. push_bit 8 a OR ucast b) 0 bs"

subsection \<open>Writers\<close>

text \<open>Modelled from the spec: the writers \<^verbatim>\<open>writeBool\<close>, \<^verbatim>\<open>writeInt\<close>, \<^verbatim>\<open>writeUint\<close>,
  \<^verbatim>\<open>writeFloat\<close>, \<^verbatim>\<open>writeFloat64\<close>, \<^verbatim>\<open>writeFloat32\<close>, \<^verbatim>\<open>writeString\<close>, \<^verbatim>\<open>writeBin\<close> and
  \<^verbatim>\<open>writeExt\<close> are called by the sources and defined outside them. Section 4.2 of the spec:
  a boolean is one literal byte; a signed integer that fits the 7-bit positive or the 5-bit
  negative fixed form is that single byte, and otherwise takes the narrowest of the explicit
  8/16/32/64-bit forms that holds it; an unsigned integer takes the narrowest explicit
  unsigned form; a float is written in the 64-bit form unless the 32-bit writer is asked
  for; strings, binary blobs and extensions take the narrowest length form that can
  address the payload, the payload following verbatim and an extension's sub-type byte
  standing next to the tag and length.\<close>

definition writeBool :: "Writer \<Rightarrow> bool \<Rightarrow> Writer" where
  "writeBool w b = w @ [if b then mtrue else mfalse]"

definition writeInt :: "Writer \<Rightarrow> 64 word \<Rightarrow> Writer" where
  "writeInt w i =
     (let n = sint i in
      if 0 \<le> n \<and> n \<le> 127 then w @ [ucast i]
      else if - 32 \<le> n \<and> n < 0 then w @ [ucast i]
      else if - 128 \<le> n \<and> n \<le> 127 then w @ [mint8, ucast i]
      else if - 32768 \<le> n \<and> n \<le> 32767 then w @ mint16 # be16 (ucast i)
      else if - 2147483648 \<le> n \<and> n \<le> 2147483647 then w @ mint32 # be32 (ucast i)
      else w @ mint64 # be64 i)"

definition writeUint :: "Writer \<Rightarrow> 64 word \<Rightarrow> Writer" where
  "writeUint w u =
     (let n = unat u in
      if n < 256 then w @ [muint8, ucast u]
      else if n < 65536 then w @ muint16 # be16 (ucast u)
      else if n < 4294967296 then w @ muint32 # be32 (ucast u)
      else w @ muint64 # be64 u)"

definition writeFloat64 :: "Writer \<Rightarrow> 64 word \<Rightarrow> Writer" where
  "writeFloat64 w f = w @ mfloat64 # be64 f"

definition writeFloat32 :: "Writer \<Rightarrow> 32 word \<Rightarrow> Writer" where
  "writeFloat32 w f = w @ mfloat32 # be32 f"

definition writeFloat :: "Writer \<Rightarrow> 64 word \<Rightarrow> Writer" where
  "writeFloat w f = writeFloat64 w f"

definition writeString :: "Writer \<Rightarrow> string \<Rightarrow> Writer" where
  "writeString w s =
     (let n = length s; p = map byte_of_char s in
      if n < 32 then w @ (0xa0 OR of_nat n) # p
      else if n < 256 then w @ mstr8 # of_nat n # p
      else if n < 65536 then w @ mstr16 # be16 (of_nat n) @ p
      else w @ mstr32 # be32 (of_nat n) @ p)"

definition writeBin :: "Writer \<Rightarrow> byte list \<Rightarrow> Writer" where
  "writeBin w b =
     (let n = length b in
      if n < 256 then w @ mbin8 # of_nat n # b
      else if n < 65536 then w @ mbin16 # be16 (of_nat n) @ b
      else w @ mbin32 # be32 (of_nat n) @ b)"

definition writeExt :: "Writer \<Rightarrow> byte \<Rightarrow> byte list \<Rightarrow> Writer" where
  "writeExt w etype dat =
     (let n = length dat in
      if n = 1 then w @ mfixext1 # etype # dat
      else if n = 2 then w @ mfixext2 # etype # dat
      else if n = 4 then w @ mfixext4 # etype # dat
      else if n = 8 then w @ mfixext8 # etype # dat
      else if n = 16 then w @ mfixext16 # etype # dat
      else if n < 256 then w @ mext8 # of_nat n # etype # dat
      else if n < 65536 then w @ mext16 # be16 (of_nat n) @ etype # dat
      else w @ mext32 # be32 (of_nat n) @ etype # dat)"

subsection \<open>Readers\<close>

text \<open>The idiom \<^verbatim>\<open>x, err := read(r); if err != nil { return ..., err }\<close>: a fault ends the
  reader with the source as the failed read left it.\<close>

definition read_then ::
  "(error + 'a) \<times> Reader \<Rightarrow> ('a \<Rightarrow> Reader \<Rightarrow> (error + 'b) \<times> Reader) \<Rightarrow> (error + 'b) \<times> Reader" where
  "read_then x k = (case x of (Inl e, r) \<Rightarrow> (Inl e, r) | (Inr a, r) \<Rightarrow> k a r)"

text \<open>The index of the highest set bit of a positive number.\<close>

fun top_bit :: "nat \<Rightarrow> nat" where
  "top_bit n = (if n < 2 then 0 else Suc (top_bit (n div 2)))"

text \<open>Modelled from the spec: a \<^verbatim>\<open>float64\<close> is read from either width form. For the 32-bit
  form the result is \<^verbatim>\<open>float64(x)\<close> of the \<^verbatim>\<open>float32\<close> \<open>x\<close> read, here on bit patterns: the
  IEEE-754 widening from binary32 (1 sign, 8 exponent, 23 fraction bits) to binary64
  (1, 11, 52). It is exact on every number: a normal number has its exponent rebiased by
  \<open>1023 - 127\<close>, a subnormal one is normalised, zeros and infinities keep their sign; a NaN
  keeps its payload and comes out quiet.\<close>

definition float64_of_float32 :: "32 word \<Rightarrow> 64 word" where
  "float64_of_float32 b =
     (let s = push_bit 63 (ucast (drop_bit 31 b));
          e = unat (drop_bit 23 b AND 0xff);
          m = ucast (b AND 0x7fffff)
      in if e = 255
           then s OR 0x7ff0000000000000 OR push_bit 29 m
                  OR (if m = 0 then 0 else 0x0008000000000000)
         else if e = 0
           then (if m = 0 then s
                 else let k = top_bit (unat m)
                      in s OR push_bit 52 (of_nat (k + 874))
                           OR (push_bit (52 - k) m AND 0x000fffffffffffff))
         else s OR push_bit 52 (of_nat (e + 896)) OR push_bit 29 m)"

text \<open>Modelled from the spec: the readers \<^verbatim>\<open>readBool\<close>, \<^verbatim>\<open>readInt\<close>, \<^verbatim>\<open>readUint\<close>,
  \<^verbatim>\<open>readFloat\<close>, \<^verbatim>\<open>readFloat64\<close>, \<^verbatim>\<open>readFloat32\<close>, \<^verbatim>\<open>readString\<close>, \<^verbatim>\<open>readBin\<close> and
  \<^verbatim>\<open>readExt\<close> are called by the sources and defined outside them. Section 4.2 of the spec:
  a reader of a kind reads the leading tag; a tag that is none of the kind's prefixes is
  the wrong-tag fault \<^verbatim>\<open>ErrBadTag\<close>, with that one byte consumed (the exported wrapper
  pushes it back); on a matching tag the reader consumes the rest of that width form and
  returns the value, widened to the 64-bit host type (sign extension for the signed
  forms, zero extension for the unsigned ones); a source that ends early is the source's
  fault. The buffer that \<^verbatim>\<open>readBin\<close> and \<^verbatim>\<open>readExt\<close> take says where the payload is
  stored: \<open>readBin\<close> and \<open>readExt\<close> give the bytes returned, and \<open>readBin_buf\<close> and
  \<open>readExt_buf\<close> further below the slice returned and what is left in the buffer.\<close>

definition readBool :: "Reader \<Rightarrow> (error + bool) \<times> Reader" where
  "readBool r =
     read_then (ReadByte r) (\<lambda>c r1.
       if c = mtrue then (Inr True, r1)
       else if c = mfalse then (Inr False, r1)
       else (Inl ErrBadTag, r1))"

definition readInt :: "Reader \<Rightarrow> (error + 64 word) \<times> Reader" where
  "readInt r =
     read_then (ReadByte r) (\<lambda>c r1.
       if c AND 0x80 = 0 then (Inr (scast c), r1)
       else if c AND 0xe0 = 0xe0 then (Inr (scast c), r1)
       else if c = mint8
         then read_then (ReadFull 1 r1) (\<lambda>bs r2. (Inr (scast (be_uint bs :: 8 word)), r2))
       else if c = mint16
         then read_then (ReadFull 2 r1) (\<lambda>bs r2. (Inr (scast (be_uint bs :: 16 word)), r2))
       else if c = mint32
         then read_then (ReadFull 4 r1) (\<lambda>bs r2. (Inr (scast (be_uint bs :: 32 word)), r2))
       else if c = mint64
         then read_then (ReadFull 8 r1) (\<lambda>bs r2. (Inr (be_uint bs), r2))
       else (Inl ErrBadTag, r1))"

definition readUint :: "Reader \<Rightarrow> (error + 64 word) \<times> Reader" where
  "readUint r =
     read_then (ReadByte r) (\<lambda>c r1.
       if c = muint8
         then read_then (ReadFull 1 r1) (\<lambda>bs r2. (Inr (ucast (be_uint bs :: 8 word)), r2))
       else if c = muint16
         then read_then (ReadFull 2 r1) (\<lambda>bs r2. (Inr (ucast (be_uint bs :: 16 word)), r2))
       else if c = muint32
         then read_then (ReadFull 4 r1) (\<lambda>bs r2. (Inr (ucast (be_uint bs :: 32 word)), r2))
       else if c = muint64
         then read_then (ReadFull 8 r1) (\<lambda>bs r2. (Inr (be_uint bs), r2))
       else (Inl ErrBadTag, r1))"

definition readFloat32 :: "Reader \<Rightarrow> (error + 32 word) \<times> Reader" where
  "readFloat32 r =
     read_then (ReadByte r) (\<lambda>c r1.
       if c = mfloat32
         then read_then (ReadFull 4 r1) (\<lambda>bs r2. (Inr (be_uint bs), r2))
       else (Inl ErrBadTag, r1))"

definition readFloat64 :: "Reader \<Rightarrow> (error + 64 word) \<times> Reader" where
  "readFloat64 r =
     read_then (ReadByte r) (\<lambda>c r1.
       if c = mfloat64
         then read_then (ReadFull 8 r1) (\<lambda>bs r2. (Inr (be_uint bs), r2))
       else (Inl ErrBadTag, r1))"

definition readFloat :: "Reader \<Rightarrow> (error + 64 word) \<times> Reader" where
  "readFloat r =
     read_then (ReadByte r) (\<lambda>c r1.
       if c = mfloat32
         then read_then (ReadFull 4 r1)
                (\<lambda>bs r2. (Inr (float64_of_float32 (be_uint bs)), r2))
       else if c = mfloat64
         then read_then (ReadFull 8 r1) (\<lambda>bs r2. (Inr (be_uint bs), r2))
       else (Inl ErrBadTag, r1))"

text \<open>The payload of a string, blob or extension of \<open>n\<close> bytes.\<close>

definition readPayload :: "nat \<Rightarrow> Reader \<Rightarrow> (error + byte list) \<times> Reader" where
  "readPayload n r = ReadFull n r"

definition readString :: "Reader \<Rightarrow> (error + string) \<times> Reader" where
  "readString r =
     read_then (ReadByte r) (\<lambda>c r1.
       read_then
         (if c AND 0xe0 = 0xa0 then (Inr (unat (c AND 0x1f)), r1)
          else if c = mstr8
            then read_then (ReadFull 1 r1) (\<lambda>bs r2. (Inr (unat (be_uint bs :: 8 word)), r2))
          else if c = mstr16
            then read_then (ReadFull 2 r1) (\<lambda>bs r2. (Inr (unat (be_uint bs :: 16 word)), r2))
          else if c = mstr32
            then read_then (ReadFull 4 r1) (\<lambda>bs r2. (Inr (unat (be_uint bs :: 32 word)), r2))
          else (Inl ErrBadTag, r1))
         (\<lambda>n r3. read_then (readPayload n r3) (\<lambda>p r4. (Inr (map char_of_byte p), r4))))"

definition readBin :: "Reader \<Rightarrow> (error + byte list) \<times> Reader" where
  "readBin r =
     read_then (ReadByte r) (\<lambda>c r1.
       read_then
         (if c = mbin8
            then read_then (ReadFull 1 r1) (\<lambda>bs r2. (Inr (unat (be_uint bs :: 8 word)), r2))
          else if c = mbin16
            then read_then (ReadFull 2 r1) (\<lambda>bs r2. (Inr (unat (be_uint bs :: 16 word)), r2))
          else if c = mbin32
            then read_then (ReadFull 4 r1) (\<lambda>bs r2. (Inr (unat (be_uint bs :: 32 word)), r2))
          else (Inl ErrBadTag, r1))
         (\<lambda>n r3. readPayload n r3))"

text \<open>\<^verbatim>\<open>readExt\<close> returns the payload and the sub-type, in this order.\<close>

definition readExt :: "Reader \<Rightarrow> (error + byte list \<times> byte) \<times> Reader" where
  "readExt r =
     read_then (ReadByte r) (\<lambda>c r1.
       read_then
         (if c = mfixext1 then (Inr 1, r1)
          else if c = mfixext2 then (Inr 2, r1)
          else if c = mfixext4 then (Inr 4, r1)
          else if c = mfixext8 then (Inr 8, r1)
          else if c = mfixext16 then (Inr 16, r1)
          else if c = mext8
            then read_then (ReadFull 1 r1) (\<lambda>bs r2. (Inr (unat (be_uint bs :: 8 word)), r2))
          else if c = mext16
            then read_then (ReadFull 2 r1) (\<lambda>bs r2. (Inr (unat (be_uint bs :: 16 word)), r2))
          else if c = mext32
            then read_then (ReadFull 4 r1) (\<lambda>bs r2. (Inr (unat (be_uint bs :: 32 word)), r2))
          else (Inl ErrBadTag, r1))
         (\<lambda>n r3. read_then (ReadByte r3) (\<lambda>etype r4.
            read_then (readPayload n r4) (\<lambda>dat r5. (Inr (dat, etype), r5)))))"

subsection \<open>Readers and their buffer\<close>

text \<open>Modelled from the spec: \<^verbatim>\<open>readBin\<close> and \<^verbatim>\<open>readExt\<close> take a buffer \<^verbatim>\<open>b\<close> next to the
  source. The comment of \<^verbatim>\<open>ReadBin\<close> in \<^verbatim>\<open>public.go\<close> says what it is for: the payload is read
  into \<^verbatim>\<open>b\<close> if \<^verbatim>\<open>b\<close> is large enough, and the slice returned is then a sub-slice of \<^verbatim>\<open>b\<close>, with
  which it shares memory; otherwise the payload gets an array of its own. A buffer is given
  by the contents of its array (its length is the capacity). A slice returned is either
  \<^verbatim>\<open>b[:n]\<close> or an array of its own, and the bytes read through it are those its array holds
  at that time.\<close>

type_synonym buffer = "byte list"

datatype slice = Shared nat | Own "byte list"

definition slice_bytes :: "buffer \<Rightarrow> slice \<Rightarrow> byte list" where
  "slice_bytes b sl = (case sl of Shared n \<Rightarrow> take n b | Own d \<Rightarrow> d)"

text \<open>The payload of \<open>n\<close> bytes, read into the buffer when it fits. A source that ends early has
  by then delivered its last bytes into the array the payload was being read into.\<close>

definition readPayload_buf :: "nat \<Rightarrow> Reader \<Rightarrow> buffer \<Rightarrow> (error + slice) \<times> Reader \<times> buffer" where
  "readPayload_buf n r b =
     (if n \<le> length b then
        (case readPayload n r of
           (Inl err, r1) \<Rightarrow> (Inl err, r1, buf r @ drop (length (buf r)) b)
         | (Inr p, r1) \<Rightarrow> (Inr (Shared n), r1, p @ drop n b))
      else
        (case readPayload n r of
           (Inl err, r1) \<Rightarrow> (Inl err, r1, b)
         | (Inr p, r1) \<Rightarrow> (Inr (Own p), r1, b)))"

text \<open>The part of \<^verbatim>\<open>readBin\<close> before the payload: the tag and the length.\<close>

definition readBin_head :: "Reader \<Rightarrow> (error + nat) \<times> Reader" where
  "readBin_head r =
     read_then (ReadByte r) (\<lambda>c r1.
       if c = mbin8
         then read_then (ReadFull 1 r1) (\<lambda>bs r2. (Inr (unat (be_uint bs :: 8 word)), r2))
       else if c = mbin16
         then read_then (ReadFull 2 r1) (\<lambda>bs r2. (Inr (unat (be_uint bs :: 16 word)), r2))
       else if c = mbin32
         then read_then (ReadFull 4 r1) (\<lambda>bs r2. (Inr (unat (be_uint bs :: 32 word)), r2))
       else (Inl ErrBadTag, r1))"

definition readBin_buf :: "Reader \<Rightarrow> buffer \<Rightarrow> (error + slice) \<times> Reader \<times> buffer" where
  "readBin_buf r b =
     (case readBin_head r of
        (Inl err, r1) \<Rightarrow> (Inl err, r1, b)
      | (Inr n, r1) \<Rightarrow> readPayload_buf n r1 b)"

text \<open>The part of \<^verbatim>\<open>readExt\<close> before the payload: the tag, the length and the sub-type.\<close>

definition readExt_head :: "Reader \<Rightarrow> (error + nat \<times> byte) \<times> Reader" where
  "readExt_head r =
     read_then (ReadByte r) (\<lambda>c r1.
       read_then
         (if c = mfixext1 then (Inr 1, r1)
          else if c = mfixext2 then (Inr 2, r1)
          else if c = mfixext4 then (Inr 4, r1)
          else if c = mfixext8 then (Inr 8, r1)
          else if c = mfixext16 then (Inr 16, r1)
          else if c = mext8
            then read_then (ReadFull 1 r1) (\<lambda>bs r2. (Inr (unat (be_uint bs :: 8 word)), r2))
          else if c = mext16
            then read_then (ReadFull 2 r1) (\<lambda>bs r2. (Inr (unat (be_uint bs :: 16 word)), r2))
          else if c = mext32
            then read_then (ReadFull 4 r1) (\<lambda>bs r2. (Inr (unat (be_uint bs :: 32 word)), r2))
          else (Inl ErrBadTag, r1))
         (\<lambda>n r3. read_then (ReadByte r3) (\<lambda>etype r4. (Inr (n, etype), r4))))"

text \<open>\<^verbatim>\<open>readExt\<close> with its buffer returns the payload's slice and the sub-type.\<close>

definition readExt_buf :: "Reader \<Rightarrow> buffer \<Rightarrow> (error + slice \<times> byte) \<times> Reader \<times> buffer" where
  "readExt_buf r b =
     (case readExt_head r of
        (Inl err, r1) \<Rightarrow> (Inl err, r1, b)
      | (Inr (n, etype), r1) \<Rightarrow>
          (case readPayload_buf n r1 b of
             (Inl err, r2, b1) \<Rightarrow> (Inl err, r2, b1)
           | (Inr dat, r2, b1) \<Rightarrow> (Inr (dat, etype), r2, b1)))"

section \<open>The exported codec (\<^verbatim>\<open>public.go\<close>)\<close>

text \<open>\<^verbatim>\<open>WriteInterface\<close> (lines 63-117). The result is the returned error (\<open>None\<close> is nil) or a
  panic, next to the sink. A nil \<^verbatim>\<open>*PackExt\<close> passes the type assertion and panics at
  \<^verbatim>\<open>ext.EType\<close>, as the function's comment says.\<close>

definition WriteInterface :: "Writer \<Rightarrow> val \<Rightarrow> Type \<Rightarrow> error option outcome \<times> Writer" where
  "WriteInterface w v t =
     (case t of
        String \<Rightarrow>
          (case v of VString s \<Rightarrow> (Return None, writeString w s)
                   | _ \<Rightarrow> (Return (Some ErrIncorrectType), w))
      | Int' \<Rightarrow>
          (case v of VInt64 i \<Rightarrow> (Return None, writeInt w i)
                   | _ \<Rightarrow> (Return (Some ErrIncorrectType), w))
      | Uint \<Rightarrow>
          (case v of VUint64 u \<Rightarrow> (Return None, writeUint w u)
                   | _ \<Rightarrow> (Return (Some ErrIncorrectType), w))
      | Float \<Rightarrow>
          (case v of VFloat64 f \<Rightarrow> (Return None, writeFloat w f)
                   | _ \<Rightarrow> (Return (Some ErrIncorrectType), w))
      | Bool \<Rightarrow>
          (case v of VBool b \<Rightarrow> (Return None, writeBool w b)
                   | _ \<Rightarrow> (Return (Some ErrIncorrectType), w))
      | Bin \<Rightarrow>
          (case v of VBytes b \<Rightarrow> (Return None, writeBin w b)
                   | _ \<Rightarrow> (Return (Some ErrIncorrectType), w))
      | Ext \<Rightarrow>
          (case v of
             VPackExtPtr ext \<Rightarrow>
               (case ext of None \<Rightarrow> (Panic, w)
                          | Some e \<Rightarrow> (Return None, writeExt w (EType e) (Data e)))
           | _ \<Rightarrow> (Return (Some ErrIncorrectType), w))
      | Invalid \<Rightarrow> (Return (Some ErrTypeNotSupported), w))"

text \<open>The exported writers (lines 119-144) hand over to the codec's.\<close>

definition WriteFloat :: "Writer \<Rightarrow> 64 word \<Rightarrow> Writer" where "WriteFloat w f = writeFloat w f"
definition WriteFloat64 :: "Writer \<Rightarrow> 64 word \<Rightarrow> Writer" where "WriteFloat64 w f = writeFloat64 w f"
definition WriteFloat32 :: "Writer \<Rightarrow> 32 word \<Rightarrow> Writer" where "WriteFloat32 w f = writeFloat32 w f"
definition WriteBool :: "Writer \<Rightarrow> bool \<Rightarrow> Writer" where "WriteBool w b = writeBool w b"
definition WriteInt :: "Writer \<Rightarrow> 64 word \<Rightarrow> Writer" where "WriteInt w i = writeInt w i"
definition WriteUint :: "Writer \<Rightarrow> 64 word \<Rightarrow> Writer" where "WriteUint w u = writeUint w u"
definition WriteString :: "Writer \<Rightarrow> string \<Rightarrow> Writer" where "WriteString w s = writeString w s"
definition WriteBin :: "Writer \<Rightarrow> byte list \<Rightarrow> Writer" where "WriteBin w b = writeBin w b"
definition WriteExt :: "Writer \<Rightarrow> byte \<Rightarrow> byte list \<Rightarrow> Writer" where
  "WriteExt w etype dat = writeExt w etype dat"

text \<open>The body shared by the exported readers (lines 154-293):
  \<^verbatim>\<open>if err != nil { if err == ErrBadTag { r.UnreadByte() } }; return\<close>. The error that
  \<^verbatim>\<open>UnreadByte\<close> may return is dropped, as in the source.\<close>

definition unread_on_bad_tag :: "(error + 'a) \<times> Reader \<Rightarrow> (error + 'a) \<times> Reader" where
  "unread_on_bad_tag x =
     (case x of
        (Inl err, r) \<Rightarrow> if err = ErrBadTag then (Inl err, snd (UnreadByte r)) else (Inl err, r)
      | (Inr a, r) \<Rightarrow> (Inr a, r))"

definition ReadFloat :: "Reader \<Rightarrow> (error + 64 word) \<times> Reader" where
  "ReadFloat r = unread_on_bad_tag (readFloat r)"

definition ReadFloat32 :: "Reader \<Rightarrow> (error + 32 word) \<times> Reader" where
  "ReadFloat32 r = unread_on_bad_tag (readFloat32 r)"

definition ReadFloat64 :: "Reader \<Rightarrow> (error + 64 word) \<times> Reader" where
  "ReadFloat64 r = unread_on_bad_tag (readFloat64 r)"

definition ReadInt :: "Reader \<Rightarrow> (error + 64 word) \<times> Reader" where
  "ReadInt r = unread_on_bad_tag (readInt r)"

definition ReadUint :: "Reader \<Rightarrow> (error + 64 word) \<times> Reader" where
  "ReadUint r = unread_on_bad_tag (readUint r)"

definition ReadString :: "Reader \<Rightarrow> (error + string) \<times> Reader" where
  "ReadString r = unread_on_bad_tag (readString r)"

definition ReadBool :: "Reader \<Rightarrow> (error + bool) \<times> Reader" where
  "ReadBool r = unread_on_bad_tag (readBool r)"

definition ReadBin :: "Reader \<Rightarrow> (error + byte list) \<times> Reader" where
  "ReadBin r = unread_on_bad_tag (readBin r)"

definition ReadExt :: "Reader \<Rightarrow> (error + PackExt) \<times> Reader" where
  "ReadExt r =
     (case unread_on_bad_tag (readExt r) of
        (Inl err, r1) \<Rightarrow> (Inl err, r1)
      | (Inr (dat, etype), r1) \<Rightarrow> (Inr \<lparr>EType = etype, Data = dat\<rparr>, r1))"

text \<open>\<^verbatim>\<open>ReadInterface\<close> (lines 311-412) returns \<^verbatim>\<open>(v, t, err)\<close>. \<open>Inr (v, t)\<close> is a return with
  a nil error; \<open>Inl err\<close> a return with that error, whose \<^verbatim>\<open>v\<close> and \<^verbatim>\<open>t\<close> are left out
  (their zero values are declared outside the sources).\<close>

definition ReadInterface :: "Reader \<Rightarrow> (error + val \<times> Type) \<times> Reader" where
  "ReadInterface r =
     (case ReadByte r of
        (Inl err, r1) \<Rightarrow> (Inl err, r1)
      | (Inr c, r1) \<Rightarrow>
          if c AND 0x80 = 0 then (Inr (VInt64 (scast (c AND 0x7f)), Int'), r1)
          else if c AND 0xe0 = 0xe0 then (Inr (VInt64 (scast c), Int'), r1)
          else if c AND 0xe0 = 0xa0 then
            (case UnreadByte r1 of
               (Some err, r2) \<Rightarrow> (Inl err, r2)
             | (None, r2) \<Rightarrow>
                 (case readString r2 of
                    (Inl err, r3) \<Rightarrow> (Inl err, r3)
                  | (Inr s, r3) \<Rightarrow> (Inr (VString s, String), r3)))
          else if c = mfalse then (Inr (VBool False, Bool), r1)
          else if c = mtrue then (Inr (VBool True, Bool), r1)
          else if c = mint8 \<or> c = mint16 \<or> c = mint32 \<or> c = mint64 then
            (case UnreadByte r1 of
               (Some err, r2) \<Rightarrow> (Inl err, r2)
             | (None, r2) \<Rightarrow>
                 (case readInt r2 of
                    (Inl err, r3) \<Rightarrow> (Inl err, r3)
                  | (Inr i, r3) \<Rightarrow> (Inr (VInt64 i, Int'), r3)))
          else if c = muint8 \<or> c = muint16 \<or> c = muint32 \<or> c = muint64 then
            (case UnreadByte r1 of
               (Some err, r2) \<Rightarrow> (Inl err, r2)
             | (None, r2) \<Rightarrow>
                 (case readUint r2 of
                    (Inl err, r3) \<Rightarrow> (Inl err, r3)
                  | (Inr u, r3) \<Rightarrow> (Inr (VUint64 u, Uint), r3)))
          else if c = mfloat32 \<or> c = mfloat64 then
            (case UnreadByte r1 of
               (Some err, r2) \<Rightarrow> (Inl err, r2)
             | (None, r2) \<Rightarrow>
                 (case readFloat r2 of
                    (Inl err, r3) \<Rightarrow> (Inl err, r3)
                  | (Inr f, r3) \<Rightarrow> (Inr (VFloat64 f, Float), r3)))
          else if c = mbin8 \<or> c = mbin16 \<or> c = mbin32 then
            (case UnreadByte r1 of
               (Some err, r2) \<Rightarrow> (Inl err, r2)
             | (None, r2) \<Rightarrow>
                 (case readBin r2 of
                    (Inl err, r3) \<Rightarrow> (Inl err, r3)
                  | (Inr b, r3) \<Rightarrow> (Inr (VBytes b, Bin), r3)))
          else if c = mfixext1 \<or> c = mfixext2 \<or> c = mfixext4 \<or> c = mfixext8
                  \<or> c = mfixext16 \<or> c = mext8 \<or> c = mext16 \<or> c = mext32 then
            (case UnreadByte r1 of
               (Some err, r2) \<Rightarrow> (Inl err, r2)
             | (None, r2) \<Rightarrow>
                 (case readExt r2 of
                    (Inl err, r3) \<Rightarrow> (Inl err, r3)
                  | (Inr (dat, etype), r3) \<Rightarrow>
                      (Inr (VPackExtPtr (Some \<lparr>EType = etype, Data = dat\<rparr>), Ext), r3)))
          else if c = mstr8 \<or> c = mstr16 \<or> c = mstr32 then
            (case UnreadByte r1 of
               (Some err, r2) \<Rightarrow> (Inl err, r2)
             | (None, r2) \<Rightarrow>
                 (case readString r2 of
                    (Inl err, r3) \<Rightarrow> (Inl err, r3)
                  | (Inr s, r3) \<Rightarrow> (Inr (VString s, String), r3)))
          else (Inl ErrTypeNotSupported, r1))"

section \<open>The older codec front (\<^verbatim>\<open>src/unnamed/part_000\<close>)\<close>

text \<open>\<^verbatim>\<open>Write\<close> (lines 25-73). The inner \<open>case\<close> is the \<^verbatim>\<open>switch\<close>: \<open>Inl err\<close> is a \<^verbatim>\<open>return err\<close>
  inside it, \<open>Inr w'\<close> a branch that has written and falls out of the switch, to the
  \<^verbatim>\<open>return ErrTypeNotSupported\<close> of line 72. Here the extension is asserted by value
  (\<^verbatim>\<open>v.(PackExt)\<close>); its sub-type field is called \<^verbatim>\<open>Type\<close> in this file.\<close>

definition Write :: "Writer \<Rightarrow> val \<Rightarrow> Type \<Rightarrow> error option \<times> Writer" where
  "Write w v t =
     (case
        (case t of
           String \<Rightarrow> (case v of VString s \<Rightarrow> Inr (writeString w s) | _ \<Rightarrow> Inl ErrIncorrectType)
         | Int' \<Rightarrow> (case v of VInt64 i \<Rightarrow> Inr (writeInt w i) | _ \<Rightarrow> Inl ErrIncorrectType)
         | Uint \<Rightarrow> (case v of VUint64 u \<Rightarrow> Inr (writeUint w u) | _ \<Rightarrow> Inl ErrIncorrectType)
         | Float \<Rightarrow> (case v of VFloat64 f \<Rightarrow> Inr (writeFloat w f) | _ \<Rightarrow> Inl ErrIncorrectType)
         | Bool \<Rightarrow> (case v of VBool b \<Rightarrow> Inr (writeBool w b) | _ \<Rightarrow> Inl ErrIncorrectType)
         | Bin \<Rightarrow> (case v of VBytes b \<Rightarrow> Inr (writeBin w b) | _ \<Rightarrow> Inl ErrIncorrectType)
         | Ext \<Rightarrow>
             (case v of VPackExt ext \<Rightarrow> Inr (writeExt w (EType ext) (Data ext))
                      | _ \<Rightarrow> Inl ErrIncorrectType)
         | Invalid \<Rightarrow> Inl ErrTypeNotSupported)
      of
        Inl err \<Rightarrow> (Some err, w)
      | Inr w' \<Rightarrow> (Some ErrTypeNotSupported, w'))"

text \<open>The pointer-taking readers (lines 85-147). A pointer is an address into a store of
  cells, or nil (\<open>None\<close>); the store is a list and an address an index into it. A call
  returns the error, the source, the store and, last, the final value of its own parameter
  variable (\<^verbatim>\<open>f\<close>, \<^verbatim>\<open>i\<close>, \<^verbatim>\<open>u\<close>, \<^verbatim>\<open>s\<close>, \<^verbatim>\<open>b\<close>), which the caller never sees. The local \<^verbatim>\<open>g\<close>
  becomes a cell of its own when its address is taken (\<^verbatim>\<open>f = &g\<close>).\<close>

type_synonym store = "val list"
type_synonym pointer = "nat option"

definition ReadFloat_p :: "Reader \<Rightarrow> pointer \<Rightarrow> store \<Rightarrow> error option \<times> Reader \<times> store \<times> pointer" where
  "ReadFloat_p r f h =
     (case readFloat r of
        (Inl err, r1) \<Rightarrow>
          if err = ErrBadTag then (Some err, snd (UnreadByte r1), h, f) else (Some err, r1, h, f)
      | (Inr g, r1) \<Rightarrow> (None, r1, h @ [VFloat64 g], Some (length h)))"

definition ReadInt_p :: "Reader \<Rightarrow> pointer \<Rightarrow> store \<Rightarrow> error option \<times> Reader \<times> store \<times> pointer" where
  "ReadInt_p r i h =
     (case readInt r of
        (Inl err, r1) \<Rightarrow>
          if err = ErrBadTag then (Some err, snd (UnreadByte r1), h, i) else (Some err, r1, h, i)
      | (Inr g, r1) \<Rightarrow> (None, r1, h @ [VInt64 g], Some (length h)))"

definition ReadUint_p :: "Reader \<Rightarrow> pointer \<Rightarrow> store \<Rightarrow> error option \<times> Reader \<times> store \<times> pointer" where
  "ReadUint_p r u h =
     (case readUint r of
        (Inl err, r1) \<Rightarrow>
          if err = ErrBadTag then (Some err, snd (UnreadByte r1), h, u) else (Some err, r1, h, u)
      | (Inr g, r1) \<Rightarrow> (None, r1, h @ [VUint64 g], Some (length h)))"

definition ReadString_p :: "Reader \<Rightarrow> pointer \<Rightarrow> store \<Rightarrow> error option \<times> Reader \<times> store \<times> pointer" where
  "ReadString_p r s h =
     (case readString r of
        (Inl err, r1) \<Rightarrow>
          if err = ErrBadTag then (Some err, snd (UnreadByte r1), h, s) else (Some err, r1, h, s)
      | (Inr g, r1) \<Rightarrow> (None, r1, h @ [VString g], Some (length h)))"

definition ReadBool_p :: "Reader \<Rightarrow> pointer \<Rightarrow> store \<Rightarrow> error option \<times> Reader \<times> store \<times> pointer" where
  "ReadBool_p r b h =
     (case readBool r of
        (Inl err, r1) \<Rightarrow>
          if err = ErrBadTag then (Some err, snd (UnreadByte r1), h, b) else (Some err, r1, h, b)
      | (Inr g, r1) \<Rightarrow> (None, r1, h @ [VBool g], Some (length h)))"

section \<open>Decoding and encoding by schema (\<^verbatim>\<open>schema.go\<close>)\<close>

text \<open>What the map \<^verbatim>\<open>m\<close> of \<^verbatim>\<open>DecodeToMap\<close> holds under a key: a value the caller put there
  or a decoded scalar (\<open>Held\<close>), the slice that \<^verbatim>\<open>readBin\<close> returned (\<open>BinEntry\<close>), or a
  \<^verbatim>\<open>*PackExt\<close> made of the sub-type and the slice that \<^verbatim>\<open>readExt\<close> returned (\<open>ExtEntry\<close>). The
  slices are stored as returned, not copied, so an entry may share the array \<^verbatim>\<open>bs\<close> of the
  call. A \<^verbatim>\<open>map[string]interface{}\<close> is nil (\<open>None\<close>) or a map given by its entries.\<close>

datatype entry = Held val | BinEntry slice | ExtEntry byte slice

type_synonym gomap = "(string \<rightharpoonup> entry) option"

text \<open>The assignment \<^verbatim>\<open>m[n] = x\<close>, after which the loop goes on: it panics on a nil map.\<close>

definition assign ::
  "gomap \<Rightarrow> string \<Rightarrow> entry \<Rightarrow> Reader \<Rightarrow> buffer \<Rightarrow> error option outcome \<times> Reader \<times> gomap \<times> buffer" where
  "assign m n x r bs =
     (case m of
        None \<Rightarrow> (Panic, r, m, bs)
      | Some f \<Rightarrow> (Return None, r, Some (f(n \<mapsto> x)), bs))"

text \<open>The body of \<^verbatim>\<open>DecodeToMap\<close>'s loop (lines 77-127) for one \<^verbatim>\<open>Object\<close>: the returned error
  (\<open>Return None\<close> when the loop goes on) or a panic, the source, the map and the contents of
  the array \<^verbatim>\<open>bs\<close>, which \<^verbatim>\<open>readBin\<close> and \<^verbatim>\<open>readExt\<close> get as their buffer \<^verbatim>\<open>bs[:16]\<close>.\<close>

definition decode_object ::
  "Object \<Rightarrow> Reader \<Rightarrow> gomap \<Rightarrow> buffer \<Rightarrow> error option outcome \<times> Reader \<times> gomap \<times> buffer" where
  "decode_object ob r m bs =
     (let t = T ob; n = Name ob in
      case t of
        String \<Rightarrow>
          (case readString r of
             (Inl err, r1) \<Rightarrow> (Return (Some err), r1, m, bs)
           | (Inr ns, r1) \<Rightarrow> assign m n (Held (VString ns)) r1 bs)
      | Int' \<Rightarrow>
          (case readInt r of
             (Inl err, r1) \<Rightarrow> (Return (Some err), r1, m, bs)
           | (Inr ns, r1) \<Rightarrow> assign m n (Held (VInt64 ns)) r1 bs)
      | Uint \<Rightarrow>
          (case readUint r of
             (Inl err, r1) \<Rightarrow> (Return (Some err), r1, m, bs)
           | (Inr ns, r1) \<Rightarrow> assign m n (Held (VUint64 ns)) r1 bs)
      | Float \<Rightarrow>
          (case readFloat r of
             (Inl err, r1) \<Rightarrow> (Return (Some err), r1, m, bs)
           | (Inr ns, r1) \<Rightarrow> assign m n (Held (VFloat64 ns)) r1 bs)
      | Bin \<Rightarrow>
          (case readBin_buf r bs of
             (Inl err, r1, bs1) \<Rightarrow> (Return (Some err), r1, m, bs1)
           | (Inr dat, r1, bs1) \<Rightarrow> assign m n (BinEntry dat) r1 bs1)
      | Ext \<Rightarrow>
          (case readExt_buf r bs of
             (Inl err, r1, bs1) \<Rightarrow> (Return (Some err), r1, m, bs1)
           | (Inr (dat, etype), r1, bs1) \<Rightarrow> assign m n (ExtEntry etype dat) r1 bs1)
      | _ \<Rightarrow> (Return (Some ErrIncorrectType), r, m, bs))"

text \<open>The loop of \<^verbatim>\<open>DecodeToMap\<close> (lines 76-129) over the schema's objects.\<close>

fun DecodeToMap_loop ::
  "Schema \<Rightarrow> Reader \<Rightarrow> gomap \<Rightarrow> buffer \<Rightarrow> error option outcome \<times> Reader \<times> gomap \<times> buffer" where
  "DecodeToMap_loop [] r m bs = (Return None, r, m, bs)"
| "DecodeToMap_loop (ob # s) r m bs =
     (case decode_object ob r m bs of
        (Return None, r1, m1, bs1) \<Rightarrow> DecodeToMap_loop s r1 m1 bs1
      | (x, r1, m1, bs1) \<Rightarrow> (x, r1, m1, bs1))"

text \<open>The caller's map, whose values share nothing with the array of the call.\<close>

definition held :: "(string \<rightharpoonup> val) option \<Rightarrow> gomap" where
  "held m = (case m of None \<Rightarrow> None | Some f \<Rightarrow> Some (\<lambda>k. map_option Held (f k)))"

text \<open>\<^verbatim>\<open>DecodeToMap\<close> (lines 68-130), called with the caller's map: \<^verbatim>\<open>var bs [16]byte\<close> is a new
  array of zeros. The call ends with an error or a panic, and leaves the source, the map
  and the array \<^verbatim>\<open>bs\<close>, which lives on in the entries that share it.\<close>

definition DecodeToMap ::
  "Schema \<Rightarrow> Reader \<Rightarrow> (string \<rightharpoonup> val) option \<Rightarrow> error option outcome \<times> Reader \<times> gomap \<times> buffer" where
  "DecodeToMap s r m = DecodeToMap_loop s r (held m) (replicate 16 0)"



text \<open>\<^verbatim>\<open>encode\<close> (lines 143-190).\<close>

definition encode :: "val \<Rightarrow> Object \<Rightarrow> Writer \<Rightarrow> error option \<times> Writer" where
  "encode v ob w =
     (case T ob of
        Float \<Rightarrow>
          (case v of VFloat64 f \<Rightarrow> (None, writeFloat w f) | _ \<Rightarrow> (Some ErrIncorrectType, w))
      | Uint \<Rightarrow>
          (case v of VUint64 i \<Rightarrow> (None, writeUint w i) | _ \<Rightarrow> (Some ErrIncorrectType, w))
      | Int' \<Rightarrow>
          (case v of VInt64 i \<Rightarrow> (None, writeInt w i) | _ \<Rightarrow> (Some ErrIncorrectType, w))
      | Bool \<Rightarrow>
          (case v of VBool b \<Rightarrow> (None, writeBool w b) | _ \<Rightarrow> (Some ErrIncorrectType, w))
      | String \<Rightarrow>
          (case v of VString s \<Rightarrow> (None, writeString w s) | _ \<Rightarrow> (Some ErrIncorrectType, w))
      | Bin \<Rightarrow>
          (case v of VBytes bs \<Rightarrow> (None, writeBin w bs) | _ \<Rightarrow> (Some ErrIncorrectType, w))
      | _ \<Rightarrow> (Some ErrTypeNotSupported, w))"

text \<open>\<^verbatim>\<open>Encode\<close> (lines 133-141): \<^verbatim>\<open>for i, v := range a\<close>, at index \<open>i\<close> over the values still
  to visit. The index expression \<^verbatim>\<open>(*s)[i]\<close> panics when \<open>i\<close> is not below the schema's
  length.\<close>

fun Encode_loop :: "Schema \<Rightarrow> nat \<Rightarrow> val list \<Rightarrow> Writer \<Rightarrow> error option outcome \<times> Writer" where
  "Encode_loop s i [] w = (Return None, w)"
| "Encode_loop s i (v # rest) w =
     (if length s \<le> i then (Panic, w)
      else case encode v (s ! i) w of
             (Some err, w1) \<Rightarrow> (Return (Some err), w1)
           | (None, w1) \<Rightarrow> Encode_loop s (i + 1) rest w1)"

definition Encode :: "Schema \<Rightarrow> val list \<Rightarrow> Writer \<Rightarrow> error option outcome \<times> Writer" where
  "Encode s a w = Encode_loop s 0 a w"

section \<open>Notions of the specification\<close>

text \<open>The host shapes that schema construction tells apart, and the fixed mapping from a
  shape to the kind inferred for it (section 4.6 of the spec): floating-point gives Float,
  unsigned integer Uint, signed integer Int, boolean Bool, text String, byte slice Bin; any
  other shape gives no kind.\<close>

datatype shape =
  FloatingPoint | UnsignedInteger | SignedInteger | Boolean | Text | ByteSlice | OtherShape

definition host_shape :: "val \<Rightarrow> shape" where
  "host_shape v =
     (case v of
        VFloat32 _ \<Rightarrow> FloatingPoint | VFloat64 _ \<Rightarrow> FloatingPoint
      | VUint _ \<Rightarrow> UnsignedInteger | VUint8 _ \<Rightarrow> UnsignedInteger
      | VUint16 _ \<Rightarrow> UnsignedInteger | VUint32 _ \<Rightarrow> UnsignedInteger
      | VUint64 _ \<Rightarrow> UnsignedInteger
      | VInt _ \<Rightarrow> SignedInteger | VInt8 _ \<Rightarrow> SignedInteger
      | VInt16 _ \<Rightarrow> SignedInteger | VInt32 _ \<Rightarrow> SignedInteger
      | VInt64 _ \<Rightarrow> SignedInteger
      | VBool _ \<Rightarrow> Boolean
      | VString _ \<Rightarrow> Text
      | VBytes _ \<Rightarrow> ByteSlice
      | _ \<Rightarrow> OtherShape)"

fun inferred_kind :: "shape \<Rightarrow> Type option" where
  "inferred_kind FloatingPoint = Some Float"
| "inferred_kind UnsignedInteger = Some Uint"
| "inferred_kind SignedInteger = Some Int'"
| "inferred_kind Boolean = Some Bool"
| "inferred_kind Text = Some String"
| "inferred_kind ByteSlice = Some Bin"
| "inferred_kind OtherShape = None"

text \<open>The host representation of a kind: the dynamic type that a value for a field of that
  kind must have (the "type-Type tuples" listed above \<^verbatim>\<open>WriteInterface\<close>: \<^verbatim>\<open>float64\<close> for
  Float, \<^verbatim>\<open>bool\<close> for Bool, \<^verbatim>\<open>int64\<close> for Int, \<^verbatim>\<open>uint64\<close> for Uint, \<^verbatim>\<open>string\<close> for String,
  \<^verbatim>\<open>[]byte\<close> for Bin, \<^verbatim>\<open>*PackExt\<close> for Ext). No value represents Invalid.\<close>

definition host_rep :: "Type \<Rightarrow> val \<Rightarrow> bool" where
  "host_rep t v =
     (case t of
        Float \<Rightarrow> (case v of VFloat64 _ \<Rightarrow> True | _ \<Rightarrow> False)
      | Bool \<Rightarrow> (case v of VBool _ \<Rightarrow> True | _ \<Rightarrow> False)
      | Int' \<Rightarrow> (case v of VInt64 _ \<Rightarrow> True | _ \<Rightarrow> False)
      | Uint \<Rightarrow> (case v of VUint64 _ \<Rightarrow> True | _ \<Rightarrow> False)
      | String \<Rightarrow> (case v of VString _ \<Rightarrow> True | _ \<Rightarrow> False)
      | Bin \<Rightarrow> (case v of VBytes _ \<Rightarrow> True | _ \<Rightarrow> False)
      | Ext \<Rightarrow> (case v of VPackExtPtr _ \<Rightarrow> True | _ \<Rightarrow> False)
      | Invalid \<Rightarrow> False)"

text \<open>The kinds for which \<^verbatim>\<open>encode\<close> has a branch.\<close>

definition encodable_kind :: "Type \<Rightarrow> bool" where
  "encodable_kind t = (t = Float \<or> t = Uint \<or> t = Int' \<or> t = Bool \<or> t = String \<or> t = Bin)"

text \<open>A value that \<^verbatim>\<open>encode\<close> writes without fault for a field.\<close>

definition accepts :: "Object \<Rightarrow> val \<Rightarrow> bool" where
  "accepts ob v = (fst (encode v ob []) = None)"

text \<open>What a caller sees of a pointer: a pointer of the caller's is nil or the address of a
  cell of the store, and reading through it gives that cell.\<close>

definition valid_pointer :: "store \<Rightarrow> pointer \<Rightarrow> bool" where
  "valid_pointer h p = (case p of None \<Rightarrow> True | Some a \<Rightarrow> a < length h)"

definition deref :: "store \<Rightarrow> pointer \<Rightarrow> val option" where
  "deref h p = (case p of None \<Rightarrow> None | Some a \<Rightarrow> if a < length h then Some (h ! a) else None)"

definition store_of :: "error option \<times> Reader \<times> store \<times> pointer \<Rightarrow> store" where
  "store_of x = fst (snd (snd x))"

text \<open>The Type Tag System (section 4.1 of the spec): the kind that a leading byte
  introduces, by the table of prefix forms; a byte of no form is Invalid.\<close>

definition tag_kind :: "byte \<Rightarrow> Type" where
  "tag_kind c =
     (if c AND 0x80 = 0 \<or> c AND 0xe0 = 0xe0 \<or> c \<in> {mint8, mint16, mint32, mint64} then Int'
      else if c \<in> {muint8, muint16, muint32, muint64} then Uint
      else if c \<in> {mfloat32, mfloat64} then Float
      else if c \<in> {mfalse, mtrue} then Bool
      else if c AND 0xe0 = 0xa0 \<or> c \<in> {mstr8, mstr16, mstr32} then String
      else if c \<in> {mbin8, mbin16, mbin32} then Bin
      else if c \<in> {mfixext1, mfixext2, mfixext4, mfixext8, mfixext16, mext8, mext16, mext32}
        then Ext
      else Invalid)"

text \<open>A legal host value of a kind: the kind's host representation, with a payload that the
  widest length form can address (fewer than \<open>2 ^ 32\<close> bytes) and, for an extension, a
  non-nil pointer.\<close>

definition legal :: "Type \<Rightarrow> val \<Rightarrow> bool" where
  "legal k v =
     (host_rep k v \<and>
      (case v of
         VString s \<Rightarrow> length s < 2 ^ 32
       | VBytes b \<Rightarrow> length b < 2 ^ 32
       | VPackExtPtr p \<Rightarrow> (case p of None \<Rightarrow> False | Some e \<Rightarrow> length (Data e) < 2 ^ 32)
       | _ \<Rightarrow> True))"

text \<open>The kind-specific writer of \<^verbatim>\<open>public.go\<close> for a host value: \<^verbatim>\<open>WriteInt\<close> for an \<^verbatim>\<open>int64\<close>,
  \<^verbatim>\<open>WriteUint\<close> for a \<^verbatim>\<open>uint64\<close>, \<^verbatim>\<open>WriteFloat\<close> for a \<^verbatim>\<open>float64\<close>, \<^verbatim>\<open>WriteBool\<close>, \<^verbatim>\<open>WriteString\<close>,
  \<^verbatim>\<open>WriteBin\<close>, and \<^verbatim>\<open>WriteExt\<close> for the fields of a \<^verbatim>\<open>*PackExt\<close>.\<close>

definition kind_writer :: "Writer \<Rightarrow> val \<Rightarrow> Writer" where
  "kind_writer w v =
     (case v of
        VInt64 i \<Rightarrow> WriteInt w i
      | VUint64 u \<Rightarrow> WriteUint w u
      | VFloat64 f \<Rightarrow> WriteFloat w f
      | VBool b \<Rightarrow> WriteBool w b
      | VString s \<Rightarrow> WriteString w s
      | VBytes b \<Rightarrow> WriteBin w b
      | VPackExtPtr p \<Rightarrow> (case p of None \<Rightarrow> w | Some e \<Rightarrow> WriteExt w (EType e) (Data e))
      | _ \<Rightarrow> w)"

text \<open>The kind-specific reader of \<^verbatim>\<open>public.go\<close> for a kind (\<^verbatim>\<open>ReadInt\<close>, \<^verbatim>\<open>ReadUint\<close>,
  \<^verbatim>\<open>ReadFloat\<close>, \<^verbatim>\<open>ReadBool\<close>, \<^verbatim>\<open>ReadString\<close>, \<^verbatim>\<open>ReadBin\<close>, \<^verbatim>\<open>ReadExt\<close>), its result as a dynamic
  value. There is no reader for Invalid.\<close>

definition kind_reader :: "Type \<Rightarrow> Reader \<Rightarrow> (error + val) \<times> Reader" where
  "kind_reader k r =
     (case k of
        Int' \<Rightarrow> read_then (ReadInt r) (\<lambda>i r1. (Inr (VInt64 i), r1))
      | Uint \<Rightarrow> read_then (ReadUint r) (\<lambda>u r1. (Inr (VUint64 u), r1))
      | Float \<Rightarrow> read_then (ReadFloat r) (\<lambda>f r1. (Inr (VFloat64 f), r1))
      | Bool \<Rightarrow> read_then (ReadBool r) (\<lambda>b r1. (Inr (VBool b), r1))
      | String \<Rightarrow> read_then (ReadString r) (\<lambda>s r1. (Inr (VString s), r1))
      | Bin \<Rightarrow> read_then (ReadBin r) (\<lambda>b r1. (Inr (VBytes b), r1))
      | Ext \<Rightarrow> read_then (ReadExt r) (\<lambda>p r1. (Inr (VPackExtPtr (Some p)), r1))
      | Invalid \<Rightarrow> (Inl ErrTypeNotSupported, r))"

text \<open>The uniform decode-by-kind path of section 4.5: the codec's reader for a kind, its
  result as a dynamic value; for Invalid, the dispatch fault after the tag byte.\<close>

definition read_kind :: "Type \<Rightarrow> Reader \<Rightarrow> (error + val) \<times> Reader" where
  "read_kind k r =
     (case k of
        Int' \<Rightarrow> read_then (readInt r) (\<lambda>i r1. (Inr (VInt64 i), r1))
      | Uint \<Rightarrow> read_then (readUint r) (\<lambda>u r1. (Inr (VUint64 u), r1))
      | Float \<Rightarrow> read_then (readFloat r) (\<lambda>f r1. (Inr (VFloat64 f), r1))
      | Bool \<Rightarrow> read_then (readBool r) (\<lambda>b r1. (Inr (VBool b), r1))
      | String \<Rightarrow> read_then (readString r) (\<lambda>s r1. (Inr (VString s), r1))
      | Bin \<Rightarrow> read_then (readBin r) (\<lambda>b r1. (Inr (VBytes b), r1))
      | Ext \<Rightarrow>
          read_then (readExt r)
            (\<lambda>x r1. (Inr (VPackExtPtr (Some \<lparr>EType = snd x, Data = fst x\<rparr>)), r1))
      | Invalid \<Rightarrow> (Inl ErrTypeNotSupported, snd (ReadByte r)))"

text \<open>The prefixes that are single constants (every prefix but the fixed forms).\<close>

definition const_tags :: "byte set" where
  "const_tags = {mfalse, mtrue, mint8, mint16, mint32, mint64, muint8, muint16, muint32, muint64,
     mfloat32, mfloat64, mbin8, mbin16, mbin32, mfixext1, mfixext2, mfixext4, mfixext8,
     mfixext16, mext8, mext16, mext32, mstr8, mstr16, mstr32}"

section \<open>Schema construction\<close>

lemma switch_kind_shape: "switch_kind v = inferred_kind (host_shape v)"
  by (cases v) (simp_all add: switch_kind_def host_shape_def)

lemma MakeSchema_loop_fault:
  "\<not> list_all (\<lambda>v. switch_kind v \<noteq> None) rest \<Longrightarrow>
   MakeSchema_loop names i rest ob = Inl ErrTypeNotSupported"
  by (induction rest arbitrary: i ob) (auto split: option.splits)

lemma MakeSchema_loop_ok:
  "list_all (\<lambda>v. switch_kind v \<noteq> None) rest \<Longrightarrow>
   \<exists>s. MakeSchema_loop names i rest ob = Inr (ob @ s) \<and> length s = length rest \<and>
     (\<forall>j<length rest. Name (s ! j) = names ! (i + j) \<and> Some (T (s ! j)) = switch_kind (rest ! j))"
proof (induction rest arbitrary: i ob)
  case Nil
  then show ?case by simp
next
  case (Cons kind rest)
  from Cons.prems obtain t where t: "switch_kind kind = Some t" by auto
  from Cons.prems have "list_all (\<lambda>v. switch_kind v \<noteq> None) rest" by simp
  from Cons.IH [OF this, of "i + 1" "ob @ [\<lparr>T = t, Name = names ! i\<rparr>]"]
  obtain s where s:
    "MakeSchema_loop names (i + 1) rest (ob @ [\<lparr>T = t, Name = names ! i\<rparr>]) =
       Inr ((ob @ [\<lparr>T = t, Name = names ! i\<rparr>]) @ s)"
    "length s = length rest"
    "\<forall>j<length rest. Name (s ! j) = names ! (i + 1 + j) \<and> Some (T (s ! j)) = switch_kind (rest ! j)"
    by blast
  let ?s = "\<lparr>T = t, Name = names ! i\<rparr> # s"
  have "MakeSchema_loop names i (kind # rest) ob = Inr (ob @ ?s)"
    using t s(1) by simp
  moreover have "length ?s = length (kind # rest)"
    using s(2) by simp
  moreover have "\<forall>j<length (kind # rest).
      Name (?s ! j) = names ! (i + j) \<and> Some (T (?s ! j)) = switch_kind ((kind # rest) ! j)"
  proof (intro allI impI)
    fix j
    assume "j < length (kind # rest)"
    then show "Name (?s ! j) = names ! (i + j) \<and> Some (T (?s ! j)) = switch_kind ((kind # rest) ! j)"
      using s(3) t by (cases j) auto
  qed
  ultimately show ?case by blast
qed

lemma other_shape_iff: "host_shape v \<noteq> OtherShape \<longleftrightarrow> switch_kind v \<noteq> None"
  by (cases v) (simp_all add: switch_kind_def host_shape_def)

text \<open>Claim C5. For name and example lists of equal length, \<^verbatim>\<open>MakeSchema\<close> returns a schema
  of that length whose field \<open>i\<close> is named \<open>names ! i\<close> and has the kind that the fixed
  mapping gives for the host shape of \<open>types ! i\<close> (floating-point: Float, unsigned integer:
  Uint, signed integer: Int, boolean: Bool, text: String, byte slice: Bin); when some example
  has another shape it returns \<^verbatim>\<open>ErrTypeNotSupported\<close> and no schema.\<close>

theorem MakeSchema_infers_kinds:
  assumes "length names = length types"
  shows "if list_all (\<lambda>v. host_shape v \<noteq> OtherShape) types
         then \<exists>s. MakeSchema names types = Inr s \<and> length s = length names \<and>
                (\<forall>i<length names. Name (s ! i) = names ! i \<and>
                   Some (T (s ! i)) = inferred_kind (host_shape (types ! i)))
         else MakeSchema names types = Inl ErrTypeNotSupported"
proof (cases "list_all (\<lambda>v. switch_kind v \<noteq> None) types")
  case True
  from MakeSchema_loop_ok [OF True, of names 0 "[]"] assms True
  show ?thesis by (auto simp: MakeSchema_def switch_kind_shape other_shape_iff)
next
  case False
  from MakeSchema_loop_fault [OF False] assms False
  show ?thesis by (simp add: MakeSchema_def other_shape_iff)
qed

theorem MakeSchema_infers_kinds_witness:
  "length [''compact'', ''schema'', ''raw''] = length [VBool True, VInt8 0, VBytes []] \<and>
   MakeSchema [''compact'', ''schema'', ''raw''] [VBool True, VInt8 0, VBytes []] =
     Inr [\<lparr>T = Bool, Name = ''compact''\<rparr>, \<lparr>T = Int', Name = ''schema''\<rparr>, \<lparr>T = Bin, Name = ''raw''\<rparr>] \<and>
   length [''compact'', ''ext''] = length [VBool True, VPackExtPtr None] \<and>
   MakeSchema [''compact'', ''ext''] [VBool True, VPackExtPtr None] = Inl ErrTypeNotSupported"
  using MakeSchema_infers_kinds [of "[''compact'', ''schema'', ''raw'']" "[VBool True, VInt8 0, VBytes []]"]
    MakeSchema_infers_kinds [of "[''compact'', ''ext'']" "[VBool True, VPackExtPtr None]"]
  by (simp add: MakeSchema_def switch_kind_def host_shape_def)

section \<open>Decoding by schema\<close>

text \<open>The readers with a buffer return what the readers return: the same outcome and
  source, the payload being the bytes of the returned slice in the buffer as they left it.\<close>

lemma readPayload_length:
  "readPayload n r = (Inr p, r1) \<Longrightarrow> length p = n"
  by (auto simp: readPayload_def ReadFull_def split: if_splits)

lemma readPayload_buf_value:
  "readPayload_buf n r b = (x, r1, b1) \<Longrightarrow>
   readPayload n r = (map_sum id (slice_bytes b1) x, r1)"
  by (auto simp: readPayload_buf_def slice_bytes_def dest: readPayload_length
      split: if_splits prod.splits sum.splits)

lemma read_then_assoc:
  "read_then (read_then x k) h = read_then x (\<lambda>a r. read_then (k a r) h)"
  by (simp add: read_then_def split: prod.splits sum.splits)

lemma read_then_return:
  "read_then (Inr a, r) k = k a r"
  by (simp add: read_then_def)

lemma readBin_head_then:
  "readBin r = read_then (readBin_head r) readPayload"
  by (simp only: readBin_def readBin_head_def read_then_assoc)

lemma readBin_buf_value:
  assumes "readBin_buf r b = (x, r1, b1)"
  shows "readBin r = (map_sum id (slice_bytes b1) x, r1)"
proof (cases "readBin_head r")
  case (Pair y r0)
  show ?thesis
  proof (cases y)
    case (Inl err)
    with Pair assms show ?thesis
      by (auto simp: readBin_buf_def readBin_head_then read_then_def)
  next
    case (Inr n)
    with Pair assms have "readPayload_buf n r0 b = (x, r1, b1)"
      by (simp add: readBin_buf_def)
    from readPayload_buf_value [OF this] Pair Inr show ?thesis
      by (simp add: readBin_head_then read_then_def)
  qed
qed

lemma readExt_head_then:
  "readExt r = read_then (readExt_head r) (\<lambda>ne r4.
     read_then (readPayload (fst ne) r4) (\<lambda>dat r5. (Inr (dat, snd ne), r5)))"
  by (simp only: readExt_def readExt_head_def read_then_assoc read_then_return fst_conv snd_conv)

lemma readExt_buf_value:
  assumes "readExt_buf r b = (x, r1, b1)"
  shows "readExt r = (map_sum id (\<lambda>(dat, etype). (slice_bytes b1 dat, etype)) x, r1)"
proof (cases "readExt_head r")
  case (Pair y r0)
  show ?thesis
  proof (cases y)
    case (Inl err)
    with Pair assms show ?thesis
      by (auto simp: readExt_buf_def readExt_head_then read_then_def)
  next
    case (Inr ne)
    obtain n etype where ne: "ne = (n, etype)" by (cases ne)
    obtain z r2 b2 where p: "readPayload_buf n r0 b = (z, r2, b2)"
      by (cases "readPayload_buf n r0 b")
    from readPayload_buf_value [OF p] have v: "readPayload n r0 = (map_sum id (slice_bytes b2) z, r2)" .
    from Pair Inr ne p assms show ?thesis
      by (cases z) (auto simp: readExt_buf_def readExt_head_then read_then_def v)
  qed
qed



lemma decode_object_panic:
  "decode_object ob r m bs = (Panic, r1, m1, bs1) \<Longrightarrow> m = None \<and> m1 = None"
  by (auto simp: decode_object_def assign_def Let_def
      split: Type.splits prod.splits sum.splits option.splits)

lemma decode_object_nil_map:
  "decode_object ob r (Some f) bs = (Return None, r1, m1, bs1) \<Longrightarrow>
   decode_object ob r None bs = (Panic, r1, None, bs1)"
  by (auto simp: decode_object_def assign_def Let_def
      split: Type.splits prod.splits sum.splits option.splits)



text \<open>With the nil map, the first field that decodes ends the call in a panic.\<close>

lemma DecodeToMap_nil_map_panics:
  "decode_object ob r (Some f) bs = (Return None, r1, m1, bs1) \<Longrightarrow>
   DecodeToMap_loop (ob # s) r None bs = (Panic, r1, None, bs1)"
  by (simp add: decode_object_nil_map)





text \<open>Claim C1, at the failing input. A schema with one Bool field, as \<^verbatim>\<open>MakeSchema\<close>
  builds it from a \<^verbatim>\<open>bool\<close> example, over a source that holds one encoded boolean:
  \<^verbatim>\<open>ReadBool\<close> decodes the value, \<^verbatim>\<open>DecodeToMap\<close> has no branch for Bool and returns
  \<^verbatim>\<open>ErrIncorrectType\<close>, reading nothing and storing nothing.\<close>

theorem DecodeToMap_rejects_Bool:
  "MakeSchema [''compact''] [VBool True] = Inr [\<lparr>T = Bool, Name = ''compact''\<rparr>] \<and>
   ReadBool \<lparr>buf = WriteBool [] True, lastbyte = None\<rparr> =
     (Inr True, \<lparr>buf = [], lastbyte = Some mtrue\<rparr>) \<and>
   DecodeToMap [\<lparr>T = Bool, Name = ''compact''\<rparr>]
     \<lparr>buf = WriteBool [] True, lastbyte = None\<rparr> (Some Map.empty) =
     (Return (Some ErrIncorrectType), \<lparr>buf = WriteBool [] True, lastbyte = None\<rparr>,
      Some Map.empty, replicate 16 0)"
  by (simp add: MakeSchema_def switch_kind_def ReadBool_def unread_on_bad_tag_def readBool_def
      read_then_def ReadByte_def WriteBool_def writeBool_def decode_object_def
      DecodeToMap_def held_def)

section \<open>Encoding by schema\<close>

lemma encode_fst_writer: "fst (encode v ob w) = fst (encode v ob w')"
  by (cases "T ob"; cases v) (simp_all add: encode_def)

lemma encode_prefix: "\<exists>bs. snd (encode v ob w) = w @ bs"
  by (cases "T ob"; cases v)
    (simp_all add: encode_def writeFloat_def writeFloat64_def writeUint_def writeInt_def
      writeBool_def writeString_def writeBin_def Let_def)

lemma encode_host_rep:
  "encodable_kind (T ob) \<Longrightarrow>
   fst (encode v ob w) = (if host_rep (T ob) v then None else Some ErrIncorrectType)"
  by (cases "T ob"; cases v) (simp_all add: encode_def encodable_kind_def host_rep_def)

text \<open>\<^verbatim>\<open>encode\<close> accepts exactly the values that are the host representation of a kind it has
  a branch for.\<close>

lemma accepts_iff: "accepts ob v \<longleftrightarrow> encodable_kind (T ob) \<and> host_rep (T ob) v"
  by (cases "T ob"; cases v) (simp_all add: accepts_def encode_def encodable_kind_def host_rep_def)

lemma encode_Invalid: "T ob = Invalid \<Longrightarrow> encode v ob w = (Some ErrTypeNotSupported, w)"
  by (simp add: encode_def)

lemma encode_Ext: "T ob = Ext \<Longrightarrow> encode v ob w = (Some ErrTypeNotSupported, w)"
  by (simp add: encode_def)

lemma encode_fault_writes_nothing: "fst (encode v ob w) = Some err \<Longrightarrow> snd (encode v ob w) = w"
  by (cases "T ob"; cases v) (simp_all add: encode_def)

lemma Encode_loop_append:
  "Encode_loop s i (a1 @ a2) w =
     (case Encode_loop s i a1 w of
        (Return None, w1) \<Rightarrow> Encode_loop s (i + length a1) a2 w1
      | x \<Rightarrow> x)"
proof (induction a1 arbitrary: i w)
  case Nil
  then show ?case by simp
next
  case (Cons v a1)
  show ?case
    using Cons.IH [of "i + 1"]
    by (auto split: prod.splits option.splits outcome.splits)
qed

lemma Encode_loop_no_panic:
  "i + length a \<le> length s \<Longrightarrow> fst (Encode_loop s i a w) \<noteq> Panic"
  by (induction a arbitrary: i w) (auto split: prod.splits option.splits)

lemma Encode_loop_prefix: "\<exists>bs. snd (Encode_loop s i a w) = w @ bs"
proof (induction a arbitrary: i w)
  case Nil
  then show ?case by simp
next
  case (Cons v a)
  show ?case
  proof (cases "length s \<le> i")
    case True
    then show ?thesis by simp
  next
    case False
    obtain e w1 where e: "encode v (s ! i) w = (e, w1)"
      by (cases "encode v (s ! i) w")
    from encode_prefix [of v "s ! i" w] e obtain bs where bs: "w1 = w @ bs" by auto
    show ?thesis
    proof (cases e)
      case None
      from Cons.IH [of "i + 1" w1] obtain cs where
        "snd (Encode_loop s (i + 1) a w1) = w1 @ cs" by blast
      with None e False bs show ?thesis by simp
    next
      case (Some err)
      with e False bs show ?thesis by simp
    qed
  qed
qed

lemma Encode_loop_take_schema:
  "i + length a \<le> n \<Longrightarrow> Encode_loop (take n s) i a w = Encode_loop s i a w"
proof (induction a arbitrary: i w)
  case Nil
  then show ?case by simp
next
  case (Cons v a)
  from Cons.prems have i: "i < n" by simp
  from Cons.prems have "i + 1 + length a \<le> n" by simp
  from Cons.IH [OF this] i show ?case
    by (auto split: prod.splits option.splits)
qed

lemma Encode_loop_all_accepted:
  "i + length a \<le> length s \<Longrightarrow> (\<forall>j<length a. accepts (s ! (i + j)) (a ! j)) \<Longrightarrow>
   fst (Encode_loop s i a w) = Return None"
proof (induction a arbitrary: i w)
  case Nil
  then show ?case by simp
next
  case (Cons v a)
  from Cons.prems(2) have "accepts (s ! i) v" by force
  then have e: "fst (encode v (s ! i) w) = None"
    using encode_fst_writer [of v "s ! i" w "[]"] by (simp add: accepts_def)
  have "\<forall>j<length a. accepts (s ! (i + 1 + j)) (a ! j)"
  proof (intro allI impI)
    fix j
    assume "j < length a"
    then have "Suc j < length (v # a)" by simp
    with Cons.prems(2) have "accepts (s ! (i + Suc j)) ((v # a) ! Suc j)" by blast
    then show "accepts (s ! (i + 1 + j)) (a ! j)" by simp
  qed
  moreover from Cons.prems(1) have "i + 1 + length a \<le> length s" by simp
  ultimately have "\<And>w1. fst (Encode_loop s (i + 1) a w1) = Return None"
    using Cons.IH by blast
  with e Cons.prems(1) show ?case
    by (auto split: prod.splits option.splits)
qed

text \<open>Claim C2, as stated, at two schemas: the first value is not the host representation
  of its field's kind, and \<^verbatim>\<open>Encode\<close> returns \<^verbatim>\<open>ErrTypeNotSupported\<close>, not
  \<^verbatim>\<open>ErrIncorrectType\<close>. For the kind Invalid this is the \<^verbatim>\<open>default\<close> branch of \<^verbatim>\<open>encode\<close>; for
  the kind Ext it is the same branch, \<^verbatim>\<open>encode\<close> having no branch for Ext.\<close>

theorem Encode_mismatch_counterexample:
  "length [VInt64 5] = length [\<lparr>T = Invalid, Name = ''x''\<rparr>] \<and>
   \<not> host_rep (T ([\<lparr>T = Invalid, Name = ''x''\<rparr>] ! 0)) ([VInt64 5] ! 0) \<and>
   Encode [\<lparr>T = Invalid, Name = ''x''\<rparr>] [VInt64 5] [] = (Return (Some ErrTypeNotSupported), []) \<and>
   fst (Encode [\<lparr>T = Invalid, Name = ''x''\<rparr>] [VInt64 5] []) \<noteq> Return (Some ErrIncorrectType) \<and>
   \<not> host_rep (T ([\<lparr>T = Ext, Name = ''e''\<rparr>] ! 0)) ([VInt64 5] ! 0) \<and>
   fst (Encode [\<lparr>T = Ext, Name = ''e''\<rparr>] [VInt64 5] []) \<noteq> Return (Some ErrIncorrectType)"
  by (simp add: Encode_def encode_def host_rep_def)

text \<open>Claim C2, amended. Let \<open>a\<close> be as long as the schema \<open>s\<close>, let \<open>a ! i\<close> be the first value
  that is not the host representation of its field's kind, and let none of the fields
  \<open>0..i\<close> be of kind Ext. Then \<^verbatim>\<open>Encode\<close> returns right after encoding the fields \<open>0..i-1\<close>:
  the sink is the one that encoding those fields alone leaves (it extends the sink of the
  call, nothing is rolled back, and nothing is written for field \<open>i\<close> or a later one), and
  the error is \<^verbatim>\<open>ErrIncorrectType\<close>, or \<^verbatim>\<open>ErrTypeNotSupported\<close> when the kind of field \<open>i\<close> is
  Invalid.\<close>

theorem Encode_first_mismatch:
  assumes len: "length a = length s" and i: "i < length a"
    and before: "\<forall>j<i. host_rep (T (s ! j)) (a ! j)"
    and at: "\<not> host_rep (T (s ! i)) (a ! i)"
    and noext: "\<forall>j\<le>i. T (s ! j) \<noteq> Ext"
  shows "\<exists>w1. Encode (take i s) (take i a) w = (Return None, w1) \<and>
           Encode s a w =
             (Return (Some (if T (s ! i) = Invalid then ErrTypeNotSupported
                            else ErrIncorrectType)), w1) \<and>
           (\<exists>bs. w1 = w @ bs)"
proof -
  have kinds: "\<forall>j<i. encodable_kind (T (s ! j))"
  proof (intro allI impI)
    fix j
    assume j: "j < i"
    with before have "host_rep (T (s ! j)) (a ! j)" by blast
    moreover from j noext have "T (s ! j) \<noteq> Ext" by simp
    ultimately show "encodable_kind (T (s ! j))"
      by (cases "T (s ! j)") (simp_all add: encodable_kind_def host_rep_def)
  qed
  have acc: "\<forall>j<length (take i a). accepts (s ! (0 + j)) (take i a ! j)"
  proof (intro allI impI)
    fix j
    assume "j < length (take i a)"
    then have j: "j < i" by simp
    with kinds before encode_host_rep [of "s ! j" "a ! j" "[]"]
    show "accepts (s ! (0 + j)) (take i a ! j)" by (simp add: accepts_def)
  qed
  have bound: "0 + length (take i a) \<le> length s"
    using len i by simp
  obtain w1 where w1: "Encode_loop s 0 (take i a) w = (Return None, w1)"
    using Encode_loop_all_accepted [OF bound acc, of w]
    by (cases "Encode_loop s 0 (take i a) w") simp
  have pre: "Encode (take i s) (take i a) w = (Return None, w1)"
    using w1 Encode_loop_take_schema [of 0 "take i a" i s w] i by (simp add: Encode_def)
  have e: "encode (a ! i) (s ! i) w1 =
      (Some (if T (s ! i) = Invalid then ErrTypeNotSupported else ErrIncorrectType), w1)"
  proof (cases "T (s ! i) = Invalid")
    case True
    then show ?thesis by (simp add: encode_Invalid)
  next
    case False
    moreover from noext have "T (s ! i) \<noteq> Ext" by simp
    ultimately have "encodable_kind (T (s ! i))"
      by (cases "T (s ! i)") (simp_all add: encodable_kind_def)
    from encode_host_rep [OF this, of "a ! i" w1] at
    have f: "fst (encode (a ! i) (s ! i) w1) = Some ErrIncorrectType" by simp
    from encode_fault_writes_nothing [OF f] f False show ?thesis
      by (cases "encode (a ! i) (s ! i) w1") simp
  qed
  have split: "a = take i a @ (a ! i) # drop (Suc i) a"
    using i by (simp add: id_take_nth_drop)
  have "Encode_loop s 0 (take i a @ (a ! i) # drop (Suc i) a) w =
      (Return (Some (if T (s ! i) = Invalid then ErrTypeNotSupported else ErrIncorrectType)), w1)"
    using w1 e i len by (simp add: Encode_loop_append min_def)
  with split have "Encode s a w =
      (Return (Some (if T (s ! i) = Invalid then ErrTypeNotSupported else ErrIncorrectType)), w1)"
    by (simp add: Encode_def)
  moreover from Encode_loop_prefix [of s 0 "take i a" w] w1 have "\<exists>bs. w1 = w @ bs" by simp
  ultimately show ?thesis using pre by blast
qed

theorem Encode_first_mismatch_witness:
  "Encode [\<lparr>T = Int', Name = ''n''\<rparr>, \<lparr>T = String, Name = ''s''\<rparr>, \<lparr>T = Bool, Name = ''b''\<rparr>]
     [VInt64 10, VInt64 3, VBool True] [0xc3] = (Return (Some ErrIncorrectType), [0xc3, 10]) \<and>
   Encode (take 1 [\<lparr>T = Int', Name = ''n''\<rparr>, \<lparr>T = String, Name = ''s''\<rparr>, \<lparr>T = Bool, Name = ''b''\<rparr>])
     (take 1 [VInt64 10, VInt64 3, VBool True]) [0xc3] = (Return None, [0xc3, 10])"
proof -
  let ?s = "[\<lparr>T = Int', Name = ''n''\<rparr>, \<lparr>T = String, Name = ''s''\<rparr>, \<lparr>T = Bool, Name = ''b''\<rparr>]"
  let ?a = "[VInt64 10, VInt64 3, VBool True]"
  have len: "length ?a = length ?s" by simp
  have i: "1 < length ?a" by simp
  have before: "\<forall>j<1. host_rep (T (?s ! j)) (?a ! j)" by (simp add: host_rep_def)
  have at: "\<not> host_rep (T (?s ! 1)) (?a ! 1)" by (simp add: host_rep_def)
  have noext: "\<forall>j\<le>1. T (?s ! j) \<noteq> Ext" by (simp add: le_Suc_eq)
  have pre: "Encode (take 1 ?s) (take 1 ?a) [0xc3] = (Return None, [0xc3, 10])"
    by (simp add: Encode_def encode_def writeInt_def)
  from Encode_first_mismatch [OF len i before at noext, of "[0xc3]"] pre
  show ?thesis by simp
qed

text \<open>Claim C6, at the failing input. For a field of kind Ext and a non-nil \<^verbatim>\<open>*PackExt\<close>,
  \<^verbatim>\<open>WriteInterface\<close> calls the extension writer and returns no error; \<^verbatim>\<open>Encode\<close> returns
  \<^verbatim>\<open>ErrTypeNotSupported\<close> and writes nothing, \<^verbatim>\<open>encode\<close> having no branch for Ext.\<close>

theorem Encode_rejects_Ext:
  "WriteInterface [] (VPackExtPtr (Some \<lparr>EType = 7, Data = [1, 2, 3]\<rparr>)) Ext =
     (Return None, WriteExt [] 7 [1, 2, 3]) \<and>
   Encode [\<lparr>T = Ext, Name = ''e''\<rparr>] [VPackExtPtr (Some \<lparr>EType = 7, Data = [1, 2, 3]\<rparr>)] [] =
     (Return (Some ErrTypeNotSupported), [])"
  by (simp add: WriteInterface_def WriteExt_def Encode_def encode_def)

text \<open>Claim C10, as stated, at a list shorter than the schema and at a longer one, each
  starting with a value of the wrong dynamic type: \<^verbatim>\<open>Encode\<close> returns the type-mismatch
  fault of that value, where the claim has no error for the short list and a panic for the
  long one.\<close>

theorem Encode_length_counterexample:
  "length [VString ''x''] < length [\<lparr>T = Int', Name = ''n''\<rparr>, \<lparr>T = Int', Name = ''m''\<rparr>] \<and>
   Encode [\<lparr>T = Int', Name = ''n''\<rparr>, \<lparr>T = Int', Name = ''m''\<rparr>] [VString ''x''] [] =
     (Return (Some ErrIncorrectType), []) \<and>
   fst (Encode [\<lparr>T = Int', Name = ''n''\<rparr>, \<lparr>T = Int', Name = ''m''\<rparr>] [VString ''x''] []) \<noteq>
     Return None \<and>
   length [\<lparr>T = Int', Name = ''n''\<rparr>] < length [VString ''x'', VInt64 1] \<and>
   Encode [\<lparr>T = Int', Name = ''n''\<rparr>] [VString ''x'', VInt64 1] [] =
     (Return (Some ErrIncorrectType), []) \<and>
   fst (Encode [\<lparr>T = Int', Name = ''n''\<rparr>] [VString ''x'', VInt64 1] []) \<noteq> Panic"
  by (simp add: Encode_def encode_def)

text \<open>Claim C10, amended. \<^verbatim>\<open>Encode\<close> never compares the two lengths. A list \<open>a\<close> that is not
  longer than the schema is encoded against the first \<open>length a\<close> fields alone, without a
  panic, and without an error when each value is one that \<^verbatim>\<open>encode\<close> accepts for its field
  (for a shorter list: a silently truncated message). For a list longer than the schema
  whose first \<open>length s\<close> values are accepted, those values are encoded and the index
  expression at position \<open>length s\<close> panics. With equal lengths there is no panic.\<close>

theorem Encode_length_unchecked:
  "(length a \<le> length s \<longrightarrow>
      Encode s a w = Encode (take (length a) s) a w \<and> fst (Encode s a w) \<noteq> Panic \<and>
      ((\<forall>j<length a. accepts (s ! j) (a ! j)) \<longrightarrow> fst (Encode s a w) = Return None)) \<and>
   (length s < length a \<and> (\<forall>j<length s. accepts (s ! j) (a ! j)) \<longrightarrow>
      fst (Encode s a w) = Panic \<and>
      Encode s (take (length s) a) w = (Return None, snd (Encode s a w)))"
proof (intro conjI impI)
  assume le: "length a \<le> length s"
  show "Encode s a w = Encode (take (length a) s) a w"
    using Encode_loop_take_schema [of 0 a "length a" s w] by (simp add: Encode_def)
  show "fst (Encode s a w) \<noteq> Panic"
    using Encode_loop_no_panic [of 0 a s w] le by (simp add: Encode_def)
  assume "\<forall>j<length a. accepts (s ! j) (a ! j)"
  then show "fst (Encode s a w) = Return None"
    using Encode_loop_all_accepted [of 0 a s w] le by (simp add: Encode_def)
next
  assume h: "length s < length a \<and> (\<forall>j<length s. accepts (s ! j) (a ! j))"
  let ?a1 = "take (length s) a"
  have acc: "\<forall>j<length ?a1. accepts (s ! (0 + j)) (?a1 ! j)"
    using h by simp
  have bound: "0 + length ?a1 \<le> length s" by simp
  obtain w1 where w1: "Encode_loop s 0 ?a1 w = (Return None, w1)"
    using Encode_loop_all_accepted [OF bound acc, of w]
    by (cases "Encode_loop s 0 ?a1 w") simp
  have "drop (length s) a \<noteq> []"
    using h by simp
  then obtain v rest where d: "drop (length s) a = v # rest"
    by (cases "drop (length s) a") auto
  have "Encode_loop s 0 (?a1 @ drop (length s) a) w = (Panic, w1)"
    using w1 d h by (simp add: Encode_loop_append min_def)
  then have r: "Encode s a w = (Panic, w1)"
    by (simp add: Encode_def)
  from r show "fst (Encode s a w) = Panic" by simp
  from r w1 show "Encode s (take (length s) a) w = (Return None, snd (Encode s a w))"
    by (simp add: Encode_def)
qed

theorem Encode_length_unchecked_witness:
  "Encode [\<lparr>T = Int', Name = ''n''\<rparr>, \<lparr>T = Bool, Name = ''b''\<rparr>] [VInt64 10] [] = (Return None, [10]) \<and>
   Encode [\<lparr>T = Int', Name = ''n''\<rparr>] [VInt64 10, VBool True] [] = (Panic, [10]) \<and>
   Encode [\<lparr>T = Int', Name = ''n''\<rparr>, \<lparr>T = Bool, Name = ''b''\<rparr>] [VInt64 10, VBool True] [] =
     (Return None, [10, 0xc3])"
proof -
  let ?n = "\<lparr>T = Int', Name = ''n''\<rparr>" and ?b = "\<lparr>T = Bool, Name = ''b''\<rparr>"
  have w10: "writeInt [] 10 = [10]"
    by (simp add: writeInt_def)
  have short: "length [VInt64 10] \<le> length [?n, ?b]" by simp
  have acc1: "\<forall>j<length [VInt64 10]. accepts ([?n, ?b] ! j) ([VInt64 10] ! j)"
    by (simp add: accepts_def encode_def)
  have long: "length [?n] < length [VInt64 10, VBool True] \<and>
      (\<forall>j<length [?n]. accepts ([?n] ! j) ([VInt64 10, VBool True] ! j))"
    by (simp add: accepts_def encode_def)
  have pre: "Encode [?n] [VInt64 10] [] = (Return None, [10])"
    by (simp add: Encode_def encode_def w10)
  have full: "Encode [?n, ?b] [VInt64 10, VBool True] [] = (Return None, [10, 0xc3])"
    by (simp add: Encode_def encode_def w10 writeBool_def mtrue_def)
  from Encode_length_unchecked [of "[VInt64 10]" "[?n, ?b]" "[]"] short acc1 pre
  have a: "Encode [?n, ?b] [VInt64 10] [] = (Return None, [10])" by simp
  from Encode_length_unchecked [of "[VInt64 10, VBool True]" "[?n]" "[]"] long pre
  have b: "Encode [?n] [VInt64 10, VBool True] [] = (Panic, [10])"
    by (cases "Encode [?n] [VInt64 10, VBool True] []") simp
  from a b full show ?thesis by simp
qed

section \<open>The tag-dispatch writers\<close>

text \<open>\<^verbatim>\<open>WriteInterface\<close> returns no error and calls the kind's writer whenever the value is the
  host representation of the kind (a nil \<^verbatim>\<open>*PackExt\<close> apart, which panics); a value of
  another dynamic type gives \<^verbatim>\<open>ErrIncorrectType\<close>, the kind Invalid
  \<^verbatim>\<open>ErrTypeNotSupported\<close>.\<close>

lemma WriteInterface_fault:
  "fst (WriteInterface w v t) =
     (if t = Invalid then Return (Some ErrTypeNotSupported)
      else if \<not> host_rep t v then Return (Some ErrIncorrectType)
      else if v = VPackExtPtr None then Panic
      else Return None)"
  by (cases t; cases v) (auto simp: WriteInterface_def host_rep_def split: option.splits)

text \<open>The older \<^verbatim>\<open>Write\<close> never returns nil: every path ends in a fault.\<close>

lemma Write_fault:
  "fst (Write w v t) =
     (if t = Invalid then Some ErrTypeNotSupported
      else if (case t of Ext \<Rightarrow> (case v of VPackExt _ \<Rightarrow> False | _ \<Rightarrow> True) | _ \<Rightarrow> \<not> host_rep t v)
        then Some ErrIncorrectType
      else Some ErrTypeNotSupported)"
  by (cases t; cases v) (simp_all add: Write_def host_rep_def)

text \<open>Claim C7, at the failing input. For the kind Int and an \<^verbatim>\<open>int64\<close>, \<^verbatim>\<open>WriteInterface\<close>
  writes the value and returns no error; the older \<^verbatim>\<open>Write\<close> writes the same byte and
  returns \<^verbatim>\<open>ErrTypeNotSupported\<close>, the \<^verbatim>\<open>return\<close> that follows its \<^verbatim>\<open>switch\<close>.\<close>

theorem Write_reports_fault_after_writing:
  "WriteInterface [] (VInt64 5) Int' = (Return None, [5]) \<and>
   Write [] (VInt64 5) Int' = (Some ErrTypeNotSupported, [5])"
  by (simp add: WriteInterface_def Write_def writeInt_def)

section \<open>The pointer-taking readers\<close>

lemma ReadFloat_p_frame:
  "take (length h) (store_of (ReadFloat_p r p h)) = h \<and>
   (valid_pointer h p \<longrightarrow> deref (store_of (ReadFloat_p r p h)) p = deref h p)"
  by (auto simp: ReadFloat_p_def store_of_def deref_def valid_pointer_def nth_append
      split: prod.splits sum.splits option.splits)

lemma ReadInt_p_frame:
  "take (length h) (store_of (ReadInt_p r p h)) = h \<and>
   (valid_pointer h p \<longrightarrow> deref (store_of (ReadInt_p r p h)) p = deref h p)"
  by (auto simp: ReadInt_p_def store_of_def deref_def valid_pointer_def nth_append
      split: prod.splits sum.splits option.splits)

lemma ReadUint_p_frame:
  "take (length h) (store_of (ReadUint_p r p h)) = h \<and>
   (valid_pointer h p \<longrightarrow> deref (store_of (ReadUint_p r p h)) p = deref h p)"
  by (auto simp: ReadUint_p_def store_of_def deref_def valid_pointer_def nth_append
      split: prod.splits sum.splits option.splits)

lemma ReadString_p_frame:
  "take (length h) (store_of (ReadString_p r p h)) = h \<and>
   (valid_pointer h p \<longrightarrow> deref (store_of (ReadString_p r p h)) p = deref h p)"
  by (auto simp: ReadString_p_def store_of_def deref_def valid_pointer_def nth_append
      split: prod.splits sum.splits option.splits)

lemma ReadBool_p_frame:
  "take (length h) (store_of (ReadBool_p r p h)) = h \<and>
   (valid_pointer h p \<longrightarrow> deref (store_of (ReadBool_p r p h)) p = deref h p)"
  by (auto simp: ReadBool_p_def store_of_def deref_def valid_pointer_def nth_append
      split: prod.splits sum.splits option.splits)

text \<open>Claim C8. For each of the pointer-taking readers \<^verbatim>\<open>ReadFloat\<close>, \<^verbatim>\<open>ReadInt\<close>, \<^verbatim>\<open>ReadUint\<close>,
  \<^verbatim>\<open>ReadString\<close> and \<^verbatim>\<open>ReadBool\<close> of \<^verbatim>\<open>part_000\<close>, any source, any store and any pointer of the
  caller's (nil, or the address of a cell of the store): after the call, with or without a
  fault, every cell the store had is unchanged, and so is what the caller reads through
  the pointer. The decoded value sits in a new cell that only the callee's own copy of the
  pointer refers to.\<close>

theorem pointer_readers_leave_target:
  assumes "valid_pointer h p"
  shows "(\<forall>f \<in> {ReadFloat_p, ReadInt_p, ReadUint_p, ReadString_p, ReadBool_p}.
           deref (store_of (f r p h)) p = deref h p \<and>
           take (length h) (store_of (f r p h)) = h)"
  using assms ReadFloat_p_frame [of h r p] ReadInt_p_frame [of h r p] ReadUint_p_frame [of h r p]
    ReadString_p_frame [of h r p] ReadBool_p_frame [of h r p]
  by simp

theorem pointer_readers_leave_target_witness:
  "valid_pointer [VFloat64 0, VBool False] (Some 0) \<and>
   ReadFloat_p \<lparr>buf = WriteFloat [] 0x3ff0000000000000, lastbyte = None\<rparr> (Some 0)
       [VFloat64 0, VBool False] =
     (None, \<lparr>buf = [], lastbyte = Some 0\<rparr>,
      [VFloat64 0, VBool False, VFloat64 0x3ff0000000000000], Some 2) \<and>
   deref (store_of (ReadFloat_p \<lparr>buf = WriteFloat [] 0x3ff0000000000000, lastbyte = None\<rparr> (Some 0)
       [VFloat64 0, VBool False])) (Some 0) = Some (VFloat64 0)"
proof -
  let ?h = "[VFloat64 0, VBool False]"
  let ?r = "\<lparr>buf = WriteFloat [] 0x3ff0000000000000, lastbyte = None\<rparr>"
  have v: "valid_pointer ?h (Some 0)"
    by (simp add: valid_pointer_def)
  have run: "ReadFloat_p ?r (Some 0) ?h =
      (None, \<lparr>buf = [], lastbyte = Some 0\<rparr>, [VFloat64 0, VBool False, VFloat64 0x3ff0000000000000], Some 2)"
    by code_simp
  have "deref ?h (Some 0) = Some (VFloat64 0)"
    by (simp add: deref_def)
  with pointer_readers_leave_target [OF v, of ?r] v run show ?thesis by simp
qed

section \<open>Words and bytes\<close>

text \<open>Big-endian bytes read back give the word; narrowing a 64-bit value that fits and
  widening it again gives the value.\<close>

lemma be_uint_be16: "be_uint (be16 x) = x"
  unfolding be_uint_def be16_def
  by (simp, rule bit_word_eqI) (auto simp: bit_simps)

lemma be_uint_be32: "be_uint (be32 x) = x"
  unfolding be_uint_def be32_def
  apply simp
  apply (rule bit_word_eqI)
  subgoal for n
    by (cases "n < 8"; cases "n < 16"; cases "n < 24") (auto simp: bit_simps not_less)
  done

lemma be_uint_be64: "be_uint (be64 x) = x"
  unfolding be_uint_def be64_def
  apply simp
  apply (rule bit_word_eqI)
  subgoal for n
    by (cases "n < 8"; cases "n < 16"; cases "n < 24"; cases "n < 32"; cases "n < 40";
        cases "n < 48"; cases "n < 56")
      (auto simp: bit_simps not_less)
  done

lemma be_uint_single: "(be_uint [b] :: 8 word) = b"
  by (simp add: be_uint_def)

lemma char_roundtrip: "char_of_byte (byte_of_char c) = c"
  unfolding char_of_byte_def byte_of_char_def
  by (simp add: unat_of_nat)

lemma scast_ucast_self:
  fixes i :: "64 word"
  assumes "- (2 ^ (LENGTH('b::len) - 1)) \<le> sint i" and "sint i < 2 ^ (LENGTH('b) - 1)"
    and "LENGTH('b) \<le> 64"
  shows "scast (ucast i :: 'b word) = i"
proof -
  have le: "LENGTH('b) - 1 \<le> 63"
    using assms(3) by simp
  have "sint (ucast i :: 'b word) = signed_take_bit (LENGTH('b) - 1) (uint i)"
    by (simp add: signed_ucast_eq)
  also have "\<dots> = signed_take_bit (LENGTH('b) - 1) (signed_take_bit 63 (uint i))"
    using le by (simp add: signed_take_bit_signed_take_bit min_absorb1)
  also have "signed_take_bit 63 (uint i) = sint i"
    by (simp add: sint_uint)
  also have "signed_take_bit (LENGTH('b) - 1) (sint i) = sint i"
    using assms(1,2) by (rule signed_take_bit_int_eq_self)
  finally have "sint (ucast i :: 'b word) = sint i" .
  then show ?thesis by (simp add: scast_eq)
qed

lemma ucast_ucast_self:
  fixes u :: "64 word"
  assumes "unat u < 2 ^ LENGTH('b::len)"
  shows "ucast (ucast u :: 'b word) = u"
proof -
  have "unat (ucast u :: 'b word) = take_bit LENGTH('b) (unat u)"
    by (rule unsigned_ucast_eq)
  also have "\<dots> = unat u"
    using assms by (rule take_bit_nat_eq_self)
  finally have "unat (ucast u :: 'b word) = unat u" .
  then have "(of_nat (unat (ucast u :: 'b word)) :: 64 word) = of_nat (unat u)"
    by (rule arg_cong)
  then show ?thesis by (simp only: of_nat_unat ucast_id)
qed

lemma unat_of_nat_self: "n < 2 ^ LENGTH('a::len) \<Longrightarrow> unat (of_nat n :: 'a word) = n"
  by (simp add: unat_of_nat)

lemma scast_ucast_8: "- 128 \<le> sint (i :: 64 word) \<Longrightarrow> sint i \<le> 127 \<Longrightarrow> scast (ucast i :: 8 word) = i"
  by (rule scast_ucast_self) simp_all

lemma scast_ucast_16: "- 32768 \<le> sint (i :: 64 word) \<Longrightarrow> sint i \<le> 32767 \<Longrightarrow> scast (ucast i :: 16 word) = i"
  by (rule scast_ucast_self) simp_all

lemma scast_ucast_32: "- 2147483648 \<le> sint (i :: 64 word) \<Longrightarrow> sint i \<le> 2147483647 \<Longrightarrow> scast (ucast i :: 32 word) = i"
  by (rule scast_ucast_self) simp_all

lemma ucast_ucast_8: "unat (u :: 64 word) < 256 \<Longrightarrow> ucast (ucast u :: 8 word) = u"
  by (rule ucast_ucast_self) simp

lemma ucast_ucast_16: "unat (u :: 64 word) < 65536 \<Longrightarrow> ucast (ucast u :: 16 word) = u"
  by (rule ucast_ucast_self) simp

lemma ucast_ucast_32: "unat (u :: 64 word) < 4294967296 \<Longrightarrow> ucast (ucast u :: 32 word) = u"
  by (rule ucast_ucast_self) simp

section \<open>The scalar codec: tags and round trips\<close>

text \<open>Facts about a single byte are decided by running through the 256 bytes.\<close>

lemmas tag_defs = mfalse_def mtrue_def mbin8_def mbin16_def mbin32_def mext8_def mext16_def
  mext32_def mfloat32_def mfloat64_def muint8_def muint16_def muint32_def muint64_def
  mint8_def mint16_def mint32_def mint64_def mfixext1_def mfixext2_def mfixext4_def
  mfixext8_def mfixext16_def mstr8_def mstr16_def mstr32_def

lemma tag_kind_chain:
  "\<forall>c::byte. tag_kind c =
     (if c AND 0x80 = 0 then Int'
      else if c AND 0xe0 = 0xe0 then Int'
      else if c AND 0xe0 = 0xa0 then String
      else if c = mfalse then Bool
      else if c = mtrue then Bool
      else if c = mint8 \<or> c = mint16 \<or> c = mint32 \<or> c = mint64 then Int'
      else if c = muint8 \<or> c = muint16 \<or> c = muint32 \<or> c = muint64 then Uint
      else if c = mfloat32 \<or> c = mfloat64 then Float
      else if c = mbin8 \<or> c = mbin16 \<or> c = mbin32 then Bin
      else if c = mfixext1 \<or> c = mfixext2 \<or> c = mfixext4 \<or> c = mfixext8
              \<or> c = mfixext16 \<or> c = mext8 \<or> c = mext16 \<or> c = mext32 then Ext
      else if c = mstr8 \<or> c = mstr16 \<or> c = mstr32 then String
      else Invalid)"
  by code_simp

lemma fix_low: "\<forall>c::byte. c AND 0x80 = 0 \<longrightarrow> c AND 0x7f = c"
  by code_simp

lemma read_then_Inr [simp]: "read_then (Inr a, r) k = k a r"
  by (simp add: read_then_def)

lemma read_then_Inl [simp]: "read_then (Inl e, r) k = (Inl e, r)"
  by (simp add: read_then_def)

lemma tag_kind_consts:
  "tag_kind mfalse = Bool" "tag_kind mtrue = Bool"
  "tag_kind mint8 = Int'" "tag_kind mint16 = Int'" "tag_kind mint32 = Int'" "tag_kind mint64 = Int'"
  "tag_kind muint8 = Uint" "tag_kind muint16 = Uint" "tag_kind muint32 = Uint" "tag_kind muint64 = Uint"
  "tag_kind mfloat32 = Float" "tag_kind mfloat64 = Float"
  "tag_kind mbin8 = Bin" "tag_kind mbin16 = Bin" "tag_kind mbin32 = Bin"
  "tag_kind mfixext1 = Ext" "tag_kind mfixext2 = Ext" "tag_kind mfixext4 = Ext"
  "tag_kind mfixext8 = Ext" "tag_kind mfixext16 = Ext"
  "tag_kind mext8 = Ext" "tag_kind mext16 = Ext" "tag_kind mext32 = Ext"
  "tag_kind mstr8 = String" "tag_kind mstr16 = String" "tag_kind mstr32 = String"
  by (simp_all add: tag_kind_def tag_defs)


text \<open>Reading from a source that holds the bytes asked for.\<close>

lemma length_be [simp]: "length (be16 x) = 2" "length (be32 y) = 4" "length (be64 z) = 8"
  by (simp_all add: be16_def be32_def be64_def)

lemma ReadFull_exact:
  "length p = n \<Longrightarrow>
   ReadFull n \<lparr>buf = p @ rest, lastbyte = l\<rparr> =
     (Inr p, \<lparr>buf = rest, lastbyte = (if n = 0 then l else Some (last p))\<rparr>)"
  by (cases p) (auto simp: ReadFull_def)

lemma ReadFull_one:
  "ReadFull (Suc 0) \<lparr>buf = b # rest, lastbyte = l\<rparr> = (Inr [b], \<lparr>buf = rest, lastbyte = Some b\<rparr>)"
  using ReadFull_exact [of "[b]" "Suc 0" rest l] by simp

lemma ReadByte_Cons:
  "ReadByte \<lparr>buf = b # rest, lastbyte = l\<rparr> = (Inr b, \<lparr>buf = rest, lastbyte = Some b\<rparr>)"
  by (simp add: ReadByte_def)

lemma sint_ucast_8:
  "- 128 \<le> sint (i :: 64 word) \<Longrightarrow> sint i \<le> 127 \<Longrightarrow> sint (ucast i :: 8 word) = sint i"
proof -
  assume a: "- 128 \<le> sint i" "sint i \<le> 127"
  have "sint (scast (ucast i :: 8 word) :: 64 word) = sint (ucast i :: 8 word)"
    by (rule sint_up_scast) (simp add: is_up)
  with scast_ucast_8 [OF a] show ?thesis by simp
qed

lemma fix_byte:
  "\<forall>c::byte. - 32 \<le> sint c \<and> sint c \<le> 127 \<longrightarrow>
     tag_kind c = Int' \<and> (c AND 0x80 = 0 \<or> c AND 0xe0 = 0xe0)"
  by code_simp

lemma readInt_writeInt:
  "fst (readInt \<lparr>buf = writeInt [] i @ rest, lastbyte = l\<rparr>) = Inr i \<and>
   buf (snd (readInt \<lparr>buf = writeInt [] i @ rest, lastbyte = l\<rparr>)) = rest"
proof -
  consider (small) "- 32 \<le> sint i" "sint i \<le> 127"
    | (i8) "- 128 \<le> sint i" "sint i < - 32"
    | (i16) "- 32768 \<le> sint i" "sint i \<le> 32767" "\<not> (- 128 \<le> sint i \<and> sint i \<le> 127)"
    | (i32) "- 2147483648 \<le> sint i" "sint i \<le> 2147483647" "\<not> (- 32768 \<le> sint i \<and> sint i \<le> 32767)"
    | (i64) "\<not> (- 2147483648 \<le> sint i \<and> sint i \<le> 2147483647)"
    by linarith
  then show ?thesis
  proof cases
    case small
    then have w: "writeInt [] i = [ucast i]"
      by (auto simp: writeInt_def Let_def)
    from small have s: "sint (ucast i :: 8 word) = sint i" by (simp add: sint_ucast_8)
    from small have v: "scast (ucast i :: 8 word) = i" by (simp add: scast_ucast_8)
    from fix_byte [rule_format, of "ucast i"] s small
    have "(ucast i :: byte) AND 0x80 = 0 \<or> (ucast i :: byte) AND 0xe0 = 0xe0" by simp
    then show ?thesis
      by (auto simp: w readInt_def ReadByte_Cons v)
  next
    case i8
    then have w: "writeInt [] i = [mint8, ucast i]"
      by (auto simp: writeInt_def Let_def)
    from i8 have v: "scast (ucast i :: 8 word) = i" by (simp add: scast_ucast_8)
    show ?thesis
      by (simp add: w readInt_def ReadByte_Cons ReadFull_one be_uint_single v mint8_def)
  next
    case i16
    then have w: "writeInt [] i = mint16 # be16 (ucast i)"
      by (auto simp: writeInt_def Let_def)
    from i16 have v: "scast (ucast i :: 16 word) = i" by (simp add: scast_ucast_16)
    show ?thesis
      by (simp add: w readInt_def ReadByte_Cons ReadFull_exact be_uint_be16 v mint8_def mint16_def)
  next
    case i32
    then have w: "writeInt [] i = mint32 # be32 (ucast i)"
      by (auto simp: writeInt_def Let_def)
    from i32 have v: "scast (ucast i :: 32 word) = i" by (simp add: scast_ucast_32)
    show ?thesis
      by (simp add: w readInt_def ReadByte_Cons ReadFull_exact be_uint_be32 v
          mint8_def mint16_def mint32_def)
  next
    case i64
    then have w: "writeInt [] i = mint64 # be64 i"
      by (auto simp: writeInt_def Let_def)
    show ?thesis
      by (simp add: w readInt_def ReadByte_Cons ReadFull_exact be_uint_be64
          mint8_def mint16_def mint32_def mint64_def)
  qed
qed

lemma writeInt_tag: "\<exists>c bs. writeInt [] i = c # bs \<and> tag_kind c = Int'"
proof (cases "- 32 \<le> sint i \<and> sint i \<le> 127")
  case True
  then have w: "writeInt [] i = [ucast i]"
    by (auto simp: writeInt_def Let_def)
  from True have s: "sint (ucast i :: 8 word) = sint i" by (simp add: sint_ucast_8)
  from fix_byte [rule_format, of "ucast i"] s True have "tag_kind (ucast i) = Int'" by simp
  with w show ?thesis by simp
next
  case False
  then show ?thesis
    by (auto simp: writeInt_def Let_def tag_kind_consts)
qed

text \<open>Each reader returns what the kind's writer wrote and leaves the source behind the
  value; the writer's first byte is a prefix of the kind.\<close>

lemma readPayload_exact:
  "length p = n \<Longrightarrow>
   readPayload n \<lparr>buf = p @ rest, lastbyte = l\<rparr> =
     (Inr p, \<lparr>buf = rest, lastbyte = (if n = 0 then l else Some (last p))\<rparr>)"
  by (simp add: readPayload_def ReadFull_exact)

lemma chars_roundtrip: "map (char_of_byte \<circ> byte_of_char) s = s"
  by (induction s) (simp_all add: char_roundtrip)

lemma unat_of_nat_8: "n < 256 \<Longrightarrow> unat (of_nat n :: 8 word) = n"
  by (simp add: unat_of_nat)
lemma unat_of_nat_16: "n < 65536 \<Longrightarrow> unat (of_nat n :: 16 word) = n"
  by (simp add: unat_of_nat)
lemma unat_of_nat_32: "n < 4294967296 \<Longrightarrow> unat (of_nat n :: 32 word) = n"
  by (simp add: unat_of_nat)

lemma readUint_writeUint:
  "fst (readUint \<lparr>buf = writeUint [] u @ rest, lastbyte = l\<rparr>) = Inr u \<and>
   buf (snd (readUint \<lparr>buf = writeUint [] u @ rest, lastbyte = l\<rparr>)) = rest"
proof -
  consider (u8) "unat u < 256"
    | (u16) "\<not> unat u < 256" "unat u < 65536"
    | (u32) "\<not> unat u < 65536" "unat u < 4294967296"
    | (u64) "\<not> unat u < 4294967296"
    by linarith
  then show ?thesis
  proof cases
    case u8
    then have w: "writeUint [] u = [muint8, ucast u]"
      by (simp add: writeUint_def Let_def)
    show ?thesis
      using u8 by (simp add: w readUint_def ReadByte_Cons ReadFull_one be_uint_single ucast_ucast_8)
  next
    case u16
    then have w: "writeUint [] u = muint16 # be16 (ucast u)"
      by (simp add: writeUint_def Let_def)
    show ?thesis
      using u16 by (simp add: w readUint_def ReadByte_Cons ReadFull_exact be_uint_be16
          ucast_ucast_16 muint8_def muint16_def)
  next
    case u32
    then have w: "writeUint [] u = muint32 # be32 (ucast u)"
      by (simp add: writeUint_def Let_def)
    show ?thesis
      using u32 by (simp add: w readUint_def ReadByte_Cons ReadFull_exact be_uint_be32
          ucast_ucast_32 muint8_def muint16_def muint32_def)
  next
    case u64
    then have w: "writeUint [] u = muint64 # be64 u"
      by (simp add: writeUint_def Let_def)
    show ?thesis
      by (simp add: w readUint_def ReadByte_Cons ReadFull_exact be_uint_be64
          muint8_def muint16_def muint32_def muint64_def)
  qed
qed

lemma writeUint_tag: "\<exists>c bs. writeUint [] u = c # bs \<and> tag_kind c = Uint"
  by (simp add: writeUint_def Let_def tag_kind_consts)

lemma readFloat_writeFloat:
  "fst (readFloat \<lparr>buf = writeFloat [] f @ rest, lastbyte = l\<rparr>) = Inr f \<and>
   buf (snd (readFloat \<lparr>buf = writeFloat [] f @ rest, lastbyte = l\<rparr>)) = rest"
  by (simp add: writeFloat_def writeFloat64_def readFloat_def ReadByte_Cons ReadFull_exact
      be_uint_be64 mfloat32_def mfloat64_def)

lemma writeFloat_tag: "\<exists>c bs. writeFloat [] f = c # bs \<and> tag_kind c = Float"
  by (simp add: writeFloat_def writeFloat64_def tag_kind_consts)

lemma readBool_writeBool:
  "fst (readBool \<lparr>buf = writeBool [] b @ rest, lastbyte = l\<rparr>) = Inr b \<and>
   buf (snd (readBool \<lparr>buf = writeBool [] b @ rest, lastbyte = l\<rparr>)) = rest"
  by (simp add: writeBool_def readBool_def ReadByte_Cons mfalse_def mtrue_def)

lemma writeBool_tag: "\<exists>c bs. writeBool [] b = c # bs \<and> tag_kind c = Bool"
  by (simp add: writeBool_def tag_kind_consts)

lemma fixstr_byte:
  "\<forall>n\<in>{..<32::nat}. ((0xa0::byte) OR of_nat n) AND 0xe0 = 0xa0 \<and>
      unat (((0xa0::byte) OR of_nat n) AND 0x1f) = n \<and> tag_kind (0xa0 OR of_nat n) = String"
  by code_simp

lemma readString_writeString:
  assumes "length s < 2 ^ 32"
  shows "fst (readString \<lparr>buf = writeString [] s @ rest, lastbyte = l\<rparr>) = Inr s \<and>
   buf (snd (readString \<lparr>buf = writeString [] s @ rest, lastbyte = l\<rparr>)) = rest"
proof -
  let ?p = "map byte_of_char s"
  have lp: "length ?p = length s" by simp
  consider (sfix) "length s < 32"
    | (s8) "\<not> length s < 32" "length s < 256"
    | (s16) "\<not> length s < 256" "length s < 65536"
    | (s32) "\<not> length s < 65536" "length s < 4294967296"
    using assms by fastforce
  then show ?thesis
  proof cases
    case sfix
    then have w: "writeString [] s = (0xa0 OR of_nat (length s)) # ?p"
      by (simp add: writeString_def Let_def)
    from fixstr_byte sfix
    have t: "((0xa0::byte) OR of_nat (length s)) AND 0xe0 = 0xa0"
      "unat (((0xa0::byte) OR of_nat (length s)) AND 0x1f) = length s"
      by auto
    show ?thesis
      by (simp add: w readString_def ReadByte_Cons t readPayload_exact [OF lp] chars_roundtrip)
  next
    case s8
    then have w: "writeString [] s = mstr8 # of_nat (length s) # ?p"
      by (simp add: writeString_def Let_def)
    show ?thesis
      using s8
      by (simp add: w readString_def ReadByte_Cons ReadFull_one be_uint_single unat_of_nat_8
          readPayload_exact [OF lp] chars_roundtrip mstr8_def)
  next
    case s16
    then have w: "writeString [] s = mstr16 # be16 (of_nat (length s)) @ ?p"
      by (simp add: writeString_def Let_def)
    show ?thesis
      using s16
      by (simp add: w readString_def ReadByte_Cons ReadFull_exact be_uint_be16 unat_of_nat_16
          readPayload_exact [OF lp] chars_roundtrip mstr8_def mstr16_def)
  next
    case s32
    then have w: "writeString [] s = mstr32 # be32 (of_nat (length s)) @ ?p"
      by (simp add: writeString_def Let_def)
    show ?thesis
      using s32
      by (simp add: w readString_def ReadByte_Cons ReadFull_exact be_uint_be32 unat_of_nat_32
          readPayload_exact [OF lp] chars_roundtrip mstr8_def mstr16_def mstr32_def)
  qed
qed

lemma writeString_tag: "\<exists>c bs. writeString [] s = c # bs \<and> tag_kind c = String"
proof (cases "length s < 32")
  case True
  with fixstr_byte have "tag_kind (0xa0 OR of_nat (length s)) = String" by auto
  with True show ?thesis by (simp add: writeString_def Let_def)
next
  case False
  then show ?thesis by (simp add: writeString_def Let_def tag_kind_consts)
qed

lemma readBin_writeBin:
  assumes "length b < 2 ^ 32"
  shows "fst (readBin \<lparr>buf = writeBin [] b @ rest, lastbyte = l\<rparr>) = Inr b \<and>
   buf (snd (readBin \<lparr>buf = writeBin [] b @ rest, lastbyte = l\<rparr>)) = rest"
proof -
  consider (b8) "length b < 256"
    | (b16) "\<not> length b < 256" "length b < 65536"
    | (b32) "\<not> length b < 65536" "length b < 4294967296"
    using assms by fastforce
  then show ?thesis
  proof cases
    case b8
    then have w: "writeBin [] b = mbin8 # of_nat (length b) # b"
      by (simp add: writeBin_def Let_def)
    show ?thesis
      using b8
      by (simp add: w readBin_def ReadByte_Cons ReadFull_one be_uint_single unat_of_nat_8
          readPayload_exact)
  next
    case b16
    then have w: "writeBin [] b = mbin16 # be16 (of_nat (length b)) @ b"
      by (simp add: writeBin_def Let_def)
    show ?thesis
      using b16
      by (simp add: w readBin_def ReadByte_Cons ReadFull_exact be_uint_be16 unat_of_nat_16
          readPayload_exact mbin8_def mbin16_def)
  next
    case b32
    then have w: "writeBin [] b = mbin32 # be32 (of_nat (length b)) @ b"
      by (simp add: writeBin_def Let_def)
    show ?thesis
      using b32
      by (simp add: w readBin_def ReadByte_Cons ReadFull_exact be_uint_be32 unat_of_nat_32
          readPayload_exact mbin8_def mbin16_def mbin32_def)
  qed
qed

lemma writeBin_tag: "\<exists>c bs. writeBin [] b = c # bs \<and> tag_kind c = Bin"
  by (simp add: writeBin_def Let_def tag_kind_consts)

lemma readExt_writeExt:
  assumes "length d < 2 ^ 32"
  shows "fst (readExt \<lparr>buf = writeExt [] t d @ rest, lastbyte = l\<rparr>) = Inr (d, t) \<and>
   buf (snd (readExt \<lparr>buf = writeExt [] t d @ rest, lastbyte = l\<rparr>)) = rest"
proof -
  let ?n = "length d"
  consider (f1) "?n = 1" | (f2) "?n = 2" | (f4) "?n = 4" | (f8) "?n = 8" | (f16) "?n = 16"
    | (e8) "?n \<notin> {1, 2, 4, 8, 16}" "?n < 256"
    | (e16) "\<not> ?n < 256" "?n < 65536"
    | (e32) "\<not> ?n < 65536" "?n < 4294967296"
    using assms by fastforce
  then show ?thesis
  proof cases
    case f1
    then have w: "writeExt [] t d = mfixext1 # t # d"
      by (simp add: writeExt_def Let_def)
    show ?thesis
      using f1 by (simp add: w readExt_def ReadByte_Cons readPayload_exact)
  next
    case f2
    then have w: "writeExt [] t d = mfixext2 # t # d"
      by (simp add: writeExt_def Let_def)
    show ?thesis
      using f2 by (simp add: w readExt_def ReadByte_Cons readPayload_exact mfixext1_def mfixext2_def)
  next
    case f4
    then have w: "writeExt [] t d = mfixext4 # t # d"
      by (simp add: writeExt_def Let_def)
    show ?thesis
      using f4 by (simp add: w readExt_def ReadByte_Cons readPayload_exact
          mfixext1_def mfixext2_def mfixext4_def)
  next
    case f8
    then have w: "writeExt [] t d = mfixext8 # t # d"
      by (simp add: writeExt_def Let_def)
    show ?thesis
      using f8 by (simp add: w readExt_def ReadByte_Cons readPayload_exact
          mfixext1_def mfixext2_def mfixext4_def mfixext8_def)
  next
    case f16
    then have w: "writeExt [] t d = mfixext16 # t # d"
      by (simp add: writeExt_def Let_def)
    show ?thesis
      using f16 by (simp add: w readExt_def ReadByte_Cons readPayload_exact
          mfixext1_def mfixext2_def mfixext4_def mfixext8_def mfixext16_def)
  next
    case e8
    then have w: "writeExt [] t d = mext8 # of_nat ?n # t # d"
      by (simp add: writeExt_def Let_def)
    show ?thesis
      using e8 by (simp add: w readExt_def ReadByte_Cons ReadFull_one be_uint_single
          unat_of_nat_8 readPayload_exact tag_defs)
  next
    case e16
    then have w: "writeExt [] t d = mext16 # be16 (of_nat ?n) @ t # d"
      by (simp add: writeExt_def Let_def)
    show ?thesis
      using e16 by (simp add: w readExt_def ReadByte_Cons ReadFull_exact be_uint_be16
          unat_of_nat_16 readPayload_exact tag_defs)
  next
    case e32
    then have w: "writeExt [] t d = mext32 # be32 (of_nat ?n) @ t # d"
      by (simp add: writeExt_def Let_def)
    show ?thesis
      using e32 by (simp add: w readExt_def ReadByte_Cons ReadFull_exact be_uint_be32
          unat_of_nat_32 readPayload_exact tag_defs)
  qed
qed

lemma writeExt_tag: "\<exists>c bs. writeExt [] t d = c # bs \<and> tag_kind c = Ext"
  by (simp add: writeExt_def Let_def tag_kind_consts)

section \<open>Readers by kind and the dynamically-typed reader\<close>

text \<open>\<^verbatim>\<open>ReadInterface\<close> classifies the leading byte by the Type Tag System and decodes by the
  kind found, from the source with the byte pushed back.\<close>

lemma lift_case:
  "(case read_then X (\<lambda>a r. (Inr (f a), r)) of
      (Inl err, r1) \<Rightarrow> (Inl err, r1)
    | (Inr v, r1) \<Rightarrow> (Inr (v, k), r1)) =
   (case X of (Inl err, r3) \<Rightarrow> (Inl err, r3) | (Inr s, r3) \<Rightarrow> (Inr (f s, k), r3))"
  by (cases X; cases "fst X") (simp_all add: read_then_def)


lemma ReadInterface_dispatch_const:
  assumes "c \<in> const_tags"
  shows "ReadInterface \<lparr>buf = c # bs, lastbyte = l\<rparr> =
     (case read_kind (tag_kind c) \<lparr>buf = c # bs, lastbyte = None\<rparr> of
        (Inl err, r1) \<Rightarrow> (Inl err, r1)
      | (Inr v, r1) \<Rightarrow> (Inr (v, tag_kind c), r1))"
  using assms unfolding const_tags_def
  by (elim insertE emptyE; hypsubst_thin; unfold tag_kind_consts;
      simp add: ReadInterface_def ReadByte_def UnreadByte_def read_kind_def lift_case
        readBool_def tag_defs;
      simp split: prod.splits sum.splits)

lemma ReadInterface_dispatch:
  "ReadInterface \<lparr>buf = c # bs, lastbyte = l\<rparr> =
     (case read_kind (tag_kind c) \<lparr>buf = c # bs, lastbyte = None\<rparr> of
        (Inl err, r1) \<Rightarrow> (Inl err, r1)
      | (Inr v, r1) \<Rightarrow> (Inr (v, tag_kind c), r1))"
proof -
  let ?r2 = "\<lparr>buf = c # bs, lastbyte = None\<rparr>"
  note chain = tag_kind_chain [rule_format, of c]
  consider (fixint) "c AND 0x80 = 0"
    | (nfix) "c AND 0x80 \<noteq> 0" "c AND 0xe0 = 0xe0"
    | (fixstr) "c AND 0x80 \<noteq> 0" "c AND 0xe0 \<noteq> 0xe0" "c AND 0xe0 = 0xa0"
    | (const) "c \<in> const_tags"
    | (inv) "c AND 0x80 \<noteq> 0" "c AND 0xe0 \<noteq> 0xe0" "c AND 0xe0 \<noteq> 0xa0" "c \<notin> const_tags"
    by blast
  then show ?thesis
  proof cases
    case fixint
    then have k: "tag_kind c = Int'" using chain by simp
    show ?thesis
      unfolding k
      using fixint fix_low [rule_format, of c]
      by (simp add: ReadInterface_def ReadByte_def read_kind_def readInt_def)
  next
    case nfix
    then have k: "tag_kind c = Int'" using chain by simp
    show ?thesis
      unfolding k
      using nfix
      by (simp add: ReadInterface_def ReadByte_def read_kind_def readInt_def)
  next
    case fixstr
    then have k: "tag_kind c = String" using chain by simp
    show ?thesis
      unfolding k
      using fixstr
      by (simp add: ReadInterface_def ReadByte_def UnreadByte_def read_kind_def lift_case)
  next
    case const
    then show ?thesis by (rule ReadInterface_dispatch_const)
  next
    case inv
    from inv(4) have ne: "c \<noteq> mfalse" "c \<noteq> mtrue" "c \<noteq> mint8" "c \<noteq> mint16" "c \<noteq> mint32"
      "c \<noteq> mint64" "c \<noteq> muint8" "c \<noteq> muint16" "c \<noteq> muint32" "c \<noteq> muint64" "c \<noteq> mfloat32"
      "c \<noteq> mfloat64" "c \<noteq> mbin8" "c \<noteq> mbin16" "c \<noteq> mbin32" "c \<noteq> mfixext1" "c \<noteq> mfixext2"
      "c \<noteq> mfixext4" "c \<noteq> mfixext8" "c \<noteq> mfixext16" "c \<noteq> mext8" "c \<noteq> mext16" "c \<noteq> mext32"
      "c \<noteq> mstr8" "c \<noteq> mstr16" "c \<noteq> mstr32"
      by (simp_all add: const_tags_def)
    have k: "tag_kind c = Invalid"
      using chain inv(1-3) ne by simp
    show ?thesis
      unfolding k
      using inv(1-3) ne
      by (simp add: ReadInterface_def ReadByte_def read_kind_def)
  qed
qed

text \<open>A reader whose kind the leading byte does not introduce fails with \<^verbatim>\<open>ErrBadTag\<close>,
  one byte consumed; the exported reader pushes that byte back.\<close>

lemma other_tag_Int:
  "\<forall>c::byte. tag_kind c \<noteq> Int' \<longrightarrow>
     c AND 0x80 \<noteq> 0 \<and> c AND 0xe0 \<noteq> 0xe0 \<and> c \<noteq> mint8 \<and> c \<noteq> mint16 \<and> c \<noteq> mint32 \<and> c \<noteq> mint64"
  by code_simp

lemma other_tag_Uint:
  "\<forall>c::byte. tag_kind c \<noteq> Uint \<longrightarrow> c \<noteq> muint8 \<and> c \<noteq> muint16 \<and> c \<noteq> muint32 \<and> c \<noteq> muint64"
  by code_simp

lemma other_tag_Float: "\<forall>c::byte. tag_kind c \<noteq> Float \<longrightarrow> c \<noteq> mfloat32 \<and> c \<noteq> mfloat64"
  by code_simp

lemma other_tag_Bool: "\<forall>c::byte. tag_kind c \<noteq> Bool \<longrightarrow> c \<noteq> mtrue \<and> c \<noteq> mfalse"
  by code_simp

lemma other_tag_String:
  "\<forall>c::byte. tag_kind c \<noteq> String \<longrightarrow> c AND 0xe0 \<noteq> 0xa0 \<and> c \<noteq> mstr8 \<and> c \<noteq> mstr16 \<and> c \<noteq> mstr32"
  by code_simp

lemma other_tag_Bin: "\<forall>c::byte. tag_kind c \<noteq> Bin \<longrightarrow> c \<noteq> mbin8 \<and> c \<noteq> mbin16 \<and> c \<noteq> mbin32"
  by code_simp

lemma other_tag_Ext:
  "\<forall>c::byte. tag_kind c \<noteq> Ext \<longrightarrow>
     c \<noteq> mfixext1 \<and> c \<noteq> mfixext2 \<and> c \<noteq> mfixext4 \<and> c \<noteq> mfixext8 \<and> c \<noteq> mfixext16 \<and>
     c \<noteq> mext8 \<and> c \<noteq> mext16 \<and> c \<noteq> mext32"
  by code_simp

lemma readInt_bad_tag:
  "tag_kind c \<noteq> Int' \<Longrightarrow>
   readInt \<lparr>buf = c # bs, lastbyte = l\<rparr> = (Inl ErrBadTag, \<lparr>buf = bs, lastbyte = Some c\<rparr>)"
  using other_tag_Int [rule_format, of c] by (simp add: readInt_def ReadByte_Cons)

lemma readUint_bad_tag:
  "tag_kind c \<noteq> Uint \<Longrightarrow>
   readUint \<lparr>buf = c # bs, lastbyte = l\<rparr> = (Inl ErrBadTag, \<lparr>buf = bs, lastbyte = Some c\<rparr>)"
  using other_tag_Uint [rule_format, of c] by (simp add: readUint_def ReadByte_Cons)

lemma readFloat_bad_tag:
  "tag_kind c \<noteq> Float \<Longrightarrow>
   readFloat \<lparr>buf = c # bs, lastbyte = l\<rparr> = (Inl ErrBadTag, \<lparr>buf = bs, lastbyte = Some c\<rparr>)"
  using other_tag_Float [rule_format, of c] by (simp add: readFloat_def ReadByte_Cons)

lemma readBool_bad_tag:
  "tag_kind c \<noteq> Bool \<Longrightarrow>
   readBool \<lparr>buf = c # bs, lastbyte = l\<rparr> = (Inl ErrBadTag, \<lparr>buf = bs, lastbyte = Some c\<rparr>)"
  using other_tag_Bool [rule_format, of c] by (simp add: readBool_def ReadByte_Cons)

lemma readString_bad_tag:
  "tag_kind c \<noteq> String \<Longrightarrow>
   readString \<lparr>buf = c # bs, lastbyte = l\<rparr> = (Inl ErrBadTag, \<lparr>buf = bs, lastbyte = Some c\<rparr>)"
  using other_tag_String [rule_format, of c] by (simp add: readString_def ReadByte_Cons)

lemma readBin_bad_tag:
  "tag_kind c \<noteq> Bin \<Longrightarrow>
   readBin \<lparr>buf = c # bs, lastbyte = l\<rparr> = (Inl ErrBadTag, \<lparr>buf = bs, lastbyte = Some c\<rparr>)"
  using other_tag_Bin [rule_format, of c] by (simp add: readBin_def ReadByte_Cons)

lemma readExt_bad_tag:
  "tag_kind c \<noteq> Ext \<Longrightarrow>
   readExt \<lparr>buf = c # bs, lastbyte = l\<rparr> = (Inl ErrBadTag, \<lparr>buf = bs, lastbyte = Some c\<rparr>)"
  using other_tag_Ext [rule_format, of c] by (simp add: readExt_def ReadByte_Cons)

lemma readFloat32_bad_tag:
  "tag_kind c \<noteq> Float \<Longrightarrow>
   readFloat32 \<lparr>buf = c # bs, lastbyte = l\<rparr> = (Inl ErrBadTag, \<lparr>buf = bs, lastbyte = Some c\<rparr>)"
  using other_tag_Float [rule_format, of c] by (simp add: readFloat32_def ReadByte_Cons)

lemma readFloat64_bad_tag:
  "tag_kind c \<noteq> Float \<Longrightarrow>
   readFloat64 \<lparr>buf = c # bs, lastbyte = l\<rparr> = (Inl ErrBadTag, \<lparr>buf = bs, lastbyte = Some c\<rparr>)"
  using other_tag_Float [rule_format, of c] by (simp add: readFloat64_def ReadByte_Cons)

lemma unread_bad_tag:
  "unread_on_bad_tag (Inl ErrBadTag, \<lparr>buf = bs, lastbyte = Some c\<rparr>) =
     (Inl ErrBadTag, \<lparr>buf = c # bs, lastbyte = None\<rparr>)"
  by (simp add: unread_on_bad_tag_def UnreadByte_def)

lemma kind_reader_bad_tag:
  assumes "tag_kind c \<noteq> k" and "k \<noteq> Invalid"
  shows "kind_reader k \<lparr>buf = c # bs, lastbyte = l\<rparr> =
     (Inl ErrBadTag, \<lparr>buf = c # bs, lastbyte = None\<rparr>)"
  using assms
  by (cases k)
    (simp_all add: kind_reader_def ReadInt_def ReadUint_def ReadFloat_def ReadBool_def
      ReadString_def ReadBin_def ReadExt_def readInt_bad_tag readUint_bad_tag readFloat_bad_tag
      readBool_bad_tag readString_bad_tag readBin_bad_tag readExt_bad_tag unread_bad_tag)

text \<open>The width-specific float readers push the byte back in the same way.\<close>

lemma ReadFloat_widths_bad_tag:
  assumes "tag_kind c \<noteq> Float"
  shows "ReadFloat32 \<lparr>buf = c # bs, lastbyte = l\<rparr> =
           (Inl ErrBadTag, \<lparr>buf = c # bs, lastbyte = None\<rparr>)"
    and "ReadFloat64 \<lparr>buf = c # bs, lastbyte = l\<rparr> =
           (Inl ErrBadTag, \<lparr>buf = c # bs, lastbyte = None\<rparr>)"
  using assms
  by (simp_all add: ReadFloat32_def ReadFloat64_def readFloat32_bad_tag readFloat64_bad_tag
      unread_bad_tag)

lemma unread_ok: "fst x = Inr a \<Longrightarrow> unread_on_bad_tag x = x"
  by (cases x) (simp add: unread_on_bad_tag_def)

lemma pair_of_projections: "fst x = a \<Longrightarrow> buf (snd x) = b \<Longrightarrow> \<exists>l. x = (a, \<lparr>buf = b, lastbyte = l\<rparr>)"
  by (cases x; cases "snd x") auto

lemma kind_writer_tag:
  assumes "legal k v"
  shows "\<exists>c bs. kind_writer [] v = c # bs \<and> tag_kind c = k"
proof -
  from assms have h: "host_rep k v" by (simp add: legal_def)
  show ?thesis
  proof (cases k)
    case Int'
    with h obtain i where "v = VInt64 i" by (cases v) (simp_all add: host_rep_def)
    with Int' writeInt_tag [of i] show ?thesis by (simp add: kind_writer_def WriteInt_def)
  next
    case Uint
    with h obtain u where "v = VUint64 u" by (cases v) (simp_all add: host_rep_def)
    with Uint writeUint_tag [of u] show ?thesis by (simp add: kind_writer_def WriteUint_def)
  next
    case Float
    with h obtain f where "v = VFloat64 f" by (cases v) (simp_all add: host_rep_def)
    with Float writeFloat_tag [of f] show ?thesis by (simp add: kind_writer_def WriteFloat_def)
  next
    case Bool
    with h obtain b where "v = VBool b" by (cases v) (simp_all add: host_rep_def)
    with Bool writeBool_tag [of b] show ?thesis by (simp add: kind_writer_def WriteBool_def)
  next
    case String
    with h obtain s where "v = VString s" by (cases v) (simp_all add: host_rep_def)
    with String writeString_tag [of s] show ?thesis by (simp add: kind_writer_def WriteString_def)
  next
    case Bin
    with h obtain b where "v = VBytes b" by (cases v) (simp_all add: host_rep_def)
    with Bin writeBin_tag [of b] show ?thesis by (simp add: kind_writer_def WriteBin_def)
  next
    case Ext
    with h obtain p where p: "v = VPackExtPtr p" by (cases v) (simp_all add: host_rep_def)
    with assms obtain e where "p = Some e" by (cases p) (simp_all add: legal_def)
    with p Ext writeExt_tag [of "EType e" "Data e"] show ?thesis
      by (simp add: kind_writer_def WriteExt_def)
  next
    case Invalid
    with h show ?thesis by (simp add: host_rep_def)
  qed
qed

lemma read_kind_roundtrip:
  assumes "legal k v"
  shows "fst (read_kind k \<lparr>buf = kind_writer [] v @ rest, lastbyte = l\<rparr>) = Inr v \<and>
         buf (snd (read_kind k \<lparr>buf = kind_writer [] v @ rest, lastbyte = l\<rparr>)) = rest"
proof -
  from assms have h: "host_rep k v" by (simp add: legal_def)
  show ?thesis
  proof (cases k)
    case Int'
    with h obtain i where v: "v = VInt64 i" by (cases v) (simp_all add: host_rep_def)
    from pair_of_projections [OF readInt_writeInt [THEN conjunct1] readInt_writeInt [THEN conjunct2], of i rest l]
    show ?thesis using Int' v by (auto simp: read_kind_def kind_writer_def WriteInt_def)
  next
    case Uint
    with h obtain u where v: "v = VUint64 u" by (cases v) (simp_all add: host_rep_def)
    from pair_of_projections [OF readUint_writeUint [THEN conjunct1] readUint_writeUint [THEN conjunct2], of u rest l]
    show ?thesis using Uint v by (auto simp: read_kind_def kind_writer_def WriteUint_def)
  next
    case Float
    with h obtain f where v: "v = VFloat64 f" by (cases v) (simp_all add: host_rep_def)
    from pair_of_projections [OF readFloat_writeFloat [THEN conjunct1] readFloat_writeFloat [THEN conjunct2], of f rest l]
    show ?thesis using Float v by (auto simp: read_kind_def kind_writer_def WriteFloat_def)
  next
    case Bool
    with h obtain b where v: "v = VBool b" by (cases v) (simp_all add: host_rep_def)
    from pair_of_projections [OF readBool_writeBool [THEN conjunct1] readBool_writeBool [THEN conjunct2], of b rest l]
    show ?thesis using Bool v by (auto simp: read_kind_def kind_writer_def WriteBool_def)
  next
    case String
    with h obtain s where v: "v = VString s" by (cases v) (simp_all add: host_rep_def)
    with assms have len: "length s < 2 ^ 32" by (simp add: legal_def)
    note rt = readString_writeString [OF len, of rest l]
    from pair_of_projections [OF rt [THEN conjunct1] rt [THEN conjunct2]]
    show ?thesis using String v by (auto simp: read_kind_def kind_writer_def WriteString_def)
  next
    case Bin
    with h obtain b where v: "v = VBytes b" by (cases v) (simp_all add: host_rep_def)
    with assms have len: "length b < 2 ^ 32" by (simp add: legal_def)
    note rt = readBin_writeBin [OF len, of rest l]
    from pair_of_projections [OF rt [THEN conjunct1] rt [THEN conjunct2]]
    show ?thesis using Bin v by (auto simp: read_kind_def kind_writer_def WriteBin_def)
  next
    case Ext
    with h obtain p where p: "v = VPackExtPtr p" by (cases v) (simp_all add: host_rep_def)
    with assms obtain e where e: "p = Some e" "length (Data e) < 2 ^ 32"
      by (cases p) (simp_all add: legal_def)
    note rt = readExt_writeExt [OF e(2), of "EType e" rest l]
    from pair_of_projections [OF rt [THEN conjunct1] rt [THEN conjunct2]]
    show ?thesis using Ext p e(1) by (auto simp: read_kind_def kind_writer_def WriteExt_def)
  next
    case Invalid
    with h show ?thesis by (simp add: host_rep_def)
  qed
qed

lemma kind_reader_ok:
  assumes "fst (read_kind k r) = Inr v"
  shows "kind_reader k r = read_kind k r"
proof (cases k)
  case Int'
  with assms show ?thesis
    by (cases "readInt r"; cases "fst (readInt r)")
      (simp_all add: kind_reader_def read_kind_def ReadInt_def unread_on_bad_tag_def)
next
  case Uint
  with assms show ?thesis
    by (cases "readUint r"; cases "fst (readUint r)")
      (simp_all add: kind_reader_def read_kind_def ReadUint_def unread_on_bad_tag_def)
next
  case Float
  with assms show ?thesis
    by (cases "readFloat r"; cases "fst (readFloat r)")
      (simp_all add: kind_reader_def read_kind_def ReadFloat_def unread_on_bad_tag_def)
next
  case Bool
  with assms show ?thesis
    by (cases "readBool r"; cases "fst (readBool r)")
      (simp_all add: kind_reader_def read_kind_def ReadBool_def unread_on_bad_tag_def)
next
  case String
  with assms show ?thesis
    by (cases "readString r"; cases "fst (readString r)")
      (simp_all add: kind_reader_def read_kind_def ReadString_def unread_on_bad_tag_def)
next
  case Bin
  with assms show ?thesis
    by (cases "readBin r"; cases "fst (readBin r)")
      (simp_all add: kind_reader_def read_kind_def ReadBin_def unread_on_bad_tag_def)
next
  case Ext
  with assms show ?thesis
    by (cases "readExt r"; cases "fst (readExt r)")
      (auto simp: kind_reader_def read_kind_def ReadExt_def unread_on_bad_tag_def)
next
  case Invalid
  with assms show ?thesis by (simp add: read_kind_def)
qed


section \<open>Wrong-tag pushback and dynamic reader consistency\<close>

text \<open>Claim C3. Let \<open>a\<close> and \<open>b\<close> be distinct kinds, \<open>a\<close> one that has a reader, and let
  the source stand at a legal value \<open>v\<close> of kind \<open>b\<close> as the kind's writer encodes it,
  followed by any bytes \<open>rest\<close>. Then the reader of kind \<open>a\<close> fails with \<^verbatim>\<open>ErrBadTag\<close> and
  leaves the source holding the same bytes as before the call (the tag byte is pushed
  back: zero net bytes consumed), and the reader of kind \<open>b\<close>, called on the source so
  left, returns \<open>v\<close> and leaves the source at \<open>rest\<close>.\<close>

theorem wrong_tag_pushback:
  assumes "a \<noteq> b" and "a \<noteq> Invalid" and "legal b v"
  shows "kind_reader a \<lparr>buf = kind_writer [] v @ rest, lastbyte = l\<rparr> =
           (Inl ErrBadTag, \<lparr>buf = kind_writer [] v @ rest, lastbyte = None\<rparr>) \<and>
         fst (kind_reader b \<lparr>buf = kind_writer [] v @ rest, lastbyte = None\<rparr>) = Inr v \<and>
         buf (snd (kind_reader b \<lparr>buf = kind_writer [] v @ rest, lastbyte = None\<rparr>)) = rest"
proof -
  from kind_writer_tag [OF assms(3)] obtain c bs where
    w: "kind_writer [] v = c # bs" and t: "tag_kind c = b" by blast
  from t assms(1) have "tag_kind c \<noteq> a" by simp
  from kind_reader_bad_tag [OF this assms(2), of "bs @ rest" l] w
  have first: "kind_reader a \<lparr>buf = kind_writer [] v @ rest, lastbyte = l\<rparr> =
      (Inl ErrBadTag, \<lparr>buf = kind_writer [] v @ rest, lastbyte = None\<rparr>)" by simp
  note rt = read_kind_roundtrip [OF assms(3), of rest None]
  from kind_reader_ok [OF rt [THEN conjunct1]] rt first show ?thesis by simp
qed

theorem wrong_tag_pushback_witness:
  "ReadInt \<lparr>buf = [0xa1, 0x78, 0xc3], lastbyte = None\<rparr> =
     (Inl ErrBadTag, \<lparr>buf = [0xa1, 0x78, 0xc3], lastbyte = None\<rparr>) \<and>
   fst (ReadString \<lparr>buf = [0xa1, 0x78, 0xc3], lastbyte = None\<rparr>) = Inr ''x'' \<and>
   buf (snd (ReadString \<lparr>buf = [0xa1, 0x78, 0xc3], lastbyte = None\<rparr>)) = [0xc3]"
proof -
  have ne: "Int' \<noteq> String" "Int' \<noteq> Invalid" by simp_all
  have legal: "legal String (VString ''x'')"
    by (simp add: legal_def host_rep_def)
  have bytes: "kind_writer [] (VString ''x'') = [0xa1, 0x78]"
    by code_simp
  note th = wrong_tag_pushback [OF ne legal, of "[0xc3]" None, unfolded bytes]
  from th [THEN conjunct1] have a: "ReadInt \<lparr>buf = [0xa1, 0x78, 0xc3], lastbyte = None\<rparr> =
      (Inl ErrBadTag, \<lparr>buf = [0xa1, 0x78, 0xc3], lastbyte = None\<rparr>)"
    by (cases "ReadInt \<lparr>buf = [0xa1, 0x78, 0xc3], lastbyte = None\<rparr>";
        cases "fst (ReadInt \<lparr>buf = [0xa1, 0x78, 0xc3], lastbyte = None\<rparr>)")
      (simp_all add: kind_reader_def)
  from th [THEN conjunct2] have b:
    "fst (ReadString \<lparr>buf = [0xa1, 0x78, 0xc3], lastbyte = None\<rparr>) = Inr ''x'' \<and>
     buf (snd (ReadString \<lparr>buf = [0xa1, 0x78, 0xc3], lastbyte = None\<rparr>)) = [0xc3]"
    by (cases "ReadString \<lparr>buf = [0xa1, 0x78, 0xc3], lastbyte = None\<rparr>";
        cases "fst (ReadString \<lparr>buf = [0xa1, 0x78, 0xc3], lastbyte = None\<rparr>)")
      (simp_all add: kind_reader_def)
  from a b show ?thesis by simp
qed

text \<open>Claim C4. For every kind \<open>k\<close> among Int, Uint, Float, Bool, String, Bin and Ext and
  every legal host value \<open>v\<close> of \<open>k\<close>: on a source that holds the bytes the kind's writer
  produces for \<open>v\<close>, followed by any bytes \<open>rest\<close>, \<^verbatim>\<open>ReadInterface\<close> returns \<open>v\<close> with the type
  \<open>k\<close> and no error, and leaves the source at \<open>rest\<close>.\<close>

theorem ReadInterface_roundtrip:
  assumes "legal k v"
  shows "fst (ReadInterface \<lparr>buf = kind_writer [] v @ rest, lastbyte = l\<rparr>) = Inr (v, k) \<and>
         buf (snd (ReadInterface \<lparr>buf = kind_writer [] v @ rest, lastbyte = l\<rparr>)) = rest"
proof -
  from kind_writer_tag [OF assms] obtain c bs where
    w: "kind_writer [] v = c # bs" and t: "tag_kind c = k" by blast
  note rt = read_kind_roundtrip [OF assms, of rest None]
  from pair_of_projections [OF rt [THEN conjunct1] rt [THEN conjunct2]] obtain l' where
    "read_kind k \<lparr>buf = kind_writer [] v @ rest, lastbyte = None\<rparr> =
       (Inr v, \<lparr>buf = rest, lastbyte = l'\<rparr>)"
    by blast
  with w t ReadInterface_dispatch [of c "bs @ rest" l] show ?thesis by simp
qed

theorem ReadInterface_roundtrip_witness:
  "fst (ReadInterface \<lparr>buf = [0xd1, 0x01, 0x2c, 0xc3], lastbyte = None\<rparr>) = Inr (VInt64 300, Int') \<and>
   buf (snd (ReadInterface \<lparr>buf = [0xd1, 0x01, 0x2c, 0xc3], lastbyte = None\<rparr>)) = [0xc3] \<and>
   fst (ReadInterface \<lparr>buf = [0xd6, 7, 1, 2, 3, 4], lastbyte = None\<rparr>) =
     Inr (VPackExtPtr (Some \<lparr>EType = 7, Data = [1, 2, 3, 4]\<rparr>), Ext)"
proof -
  have l1: "legal Int' (VInt64 300)"
    by (simp add: legal_def host_rep_def)
  have b1: "kind_writer [] (VInt64 300) = [0xd1, 0x01, 0x2c]"
    by code_simp
  have l2: "legal Ext (VPackExtPtr (Some \<lparr>EType = 7, Data = [1, 2, 3, 4]\<rparr>))"
    by (simp add: legal_def host_rep_def)
  have b2: "kind_writer [] (VPackExtPtr (Some \<lparr>EType = 7, Data = [1, 2, 3, 4]\<rparr>)) = [0xd6, 7, 1, 2, 3, 4]"
    by code_simp
  from ReadInterface_roundtrip [OF l1, of "[0xc3]" None, unfolded b1]
    ReadInterface_roundtrip [OF l2, of "[]" None, unfolded b2]
  show ?thesis by simp
qed

end
